theory Spec2Isabelle
  imports Complex_Main "HOL-Library.Multiset"
begin

section \<open>Data model of request\_files.py\<close>

text \<open>
  The values stored in the dictionaries that are serialised for the queue are strings and
  integers. A Python dict is an association list in insertion order, which is the order
  \<^verbatim>\<open>json.dumps\<close> writes the keys in.
\<close>

datatype json = JStr string | JInt int

type_synonym pydict = "(string \<times> json) list"

text \<open>\<^verbatim>\<open>class RequestMethod(Enum)\<close> of request\_files.py and its \<^verbatim>\<open>.value\<close>.\<close>

datatype RequestMethod = POST | PUT

fun RequestMethod_value :: "RequestMethod \<Rightarrow> string" where
  "RequestMethod_value POST = ''post''"
| "RequestMethod_value PUT = ''put''"

definition DEFAULT_RESTORE_EXPIRE_DAYS :: int where
  "DEFAULT_RESTORE_EXPIRE_DAYS = 5"

definition DEFAULT_MAX_REQUEST_RETRIES :: int where
  "DEFAULT_MAX_REQUEST_RETRIES = 2"

definition ORCA_STATUS_PENDING :: int where
  "ORCA_STATUS_PENDING = 1"

definition ORCA_STATUS_FAILED :: int where
  "ORCA_STATUS_FAILED = 4"

text \<open>
  An entry of \<^verbatim>\<open>granule['recover_files']\<close>: the dict with the keys \<^verbatim>\<open>key\<close>,
  \<^verbatim>\<open>dest_bucket\<close>, \<^verbatim>\<open>success\<close> and \<^verbatim>\<open>err_msg\<close> that \<^verbatim>\<open>inner_task\<close> builds and
  \<^verbatim>\<open>process_granule\<close> updates in place.
\<close>

record recover_file =
  key :: string
  dest_bucket :: string
  success :: bool
  err_msg :: string

text \<open>An entry of \<^verbatim>\<open>granule['keys']\<close> of the task input.\<close>

record file_key =
  fk_key :: string
  fk_dest_bucket :: string

text \<open>
  A granule dict. Every key is optional in the model, because \<^verbatim>\<open>inner_task\<close> itself
  starts from the empty dict \<^verbatim>\<open>{}\<close>; a lookup of a missing key raises \<^verbatim>\<open>KeyError\<close>.
\<close>

record granule =
  granuleId :: "string option"
  keys :: "file_key list option"
  recover_files :: "recover_file list option"

definition empty_granule :: granule where
  "empty_granule = \<lparr>granuleId = None, keys = None, recover_files = None\<rparr>"

text \<open>
  The event handed to \<^verbatim>\<open>inner_task\<close>: \<^verbatim>\<open>event['config']['glacier-bucket']\<close> (its absence
  is handled by the code), \<^verbatim>\<open>event['input']['granules']\<close> and \<^verbatim>\<open>event['input']['job_id']\<close>.
\<close>

record event =
  config_glacier_bucket :: "string option"
  input_granules :: "granule list"
  input_job_id :: "string option"

record task_output =
  out_granules :: "granule list"
  out_job_id :: string

text \<open>The keyword arguments of one \<^verbatim>\<open>sqs.send_message\<close> call; an absent keyword is \<open>None\<close>.\<close>

record sqs_message =
  QueueUrl :: string
  MessageDeduplicationId :: "string option"
  MessageGroupId :: "string option"
  MessageAttributes :: "(string \<times> string \<times> string) list option"
  MessageBody :: "string option"

text \<open>
  Exceptions. A \<^verbatim>\<open>ClientError\<close> carries its error code
  (\<^verbatim>\<open>err.response['Error']['Code']\<close>) and its text (\<^verbatim>\<open>str(err)\<close>). The message of a
  \<^verbatim>\<open>RestoreRequestError\<close> is an f-string: the literal pieces and the interpolated values.
\<close>

datatype fragment =
    Text string
  | Interp_event event
  | Interp_len nat
  | Interp_granule granule

datatype error =
    KeyError string
  | ClientError string string
  | Exception string
  | RestoreRequestError "fragment list"

section \<open>The outside world\<close>

text \<open>
  What the run does to the outside, in the order it happens: the S3 calls, the calls of
  the status publisher \<^verbatim>\<open>post_entry_to_queue\<close> (one per status event handed over), the
  \<^verbatim>\<open>sqs.send_message\<close> calls with whether the queue took them, and the sleeps.
  \<open>RestoreObject\<close> carries Bucket, Key, Days, Tier, the attempt number that
  \<^verbatim>\<open>restore_object\<close> is given, and whether S3 accepted the request.
\<close>

datatype effect =
    HeadObject string string
  | RestoreObject string string int string int bool
  | PostEntry string pydict RequestMethod
  | SendMessage sqs_message bool
  | Sleep real

text \<open>
  The collaborators, as parameters:
  \<^item> \<open>head_object\<close>: \<^verbatim>\<open>s3.head_object(Bucket, Key)\<close>, \<open>None\<close> when it returns and
    \<open>Some (code, text)\<close> when it raises \<^verbatim>\<open>ClientError\<close>;
  \<^item> \<open>s3_restore_object\<close>: \<^verbatim>\<open>s3.restore_object(Bucket, Key, RestoreRequest)\<close> as issued in the
    given attempt (Bucket, Key, Days, Tier, attempt), with the same result convention;
    \<^verbatim>\<open>restore_object\<close> documents \<^verbatim>\<open>ClientError\<close> as what it raises;
  \<^item> \<open>send_message\<close>: the n-th \<^verbatim>\<open>sqs.send_message\<close> call of the run, \<open>None\<close> when it
    returns and \<open>Some e\<close> when it raises \<open>e\<close>;
  \<^item> \<open>utcnow\<close>: the n-th \<^verbatim>\<open>datetime.now(timezone.utc).isoformat()\<close> of the run;
  \<^item> \<open>json_dumps_indent4\<close>: \<^verbatim>\<open>json.dumps(new_data, indent=4)\<close>.
\<close>

record env =
  head_object :: "string \<Rightarrow> string \<Rightarrow> (string \<times> string) option"
  s3_restore_object :: "string \<Rightarrow> string \<Rightarrow> int \<Rightarrow> string \<Rightarrow> int \<Rightarrow> (string \<times> string) option"
  send_message :: "nat \<Rightarrow> sqs_message \<Rightarrow> error option"
  utcnow :: "nat \<Rightarrow> string"
  json_dumps_indent4 :: "pydict \<Rightarrow> string"

record world =
  trace :: "effect list"
  clock :: nat
  sqs_calls :: nat

definition emit :: "effect \<Rightarrow> world \<Rightarrow> world" where
  "emit e w = w\<lparr>trace := trace w @ [e]\<rparr>"

definition now :: "env \<Rightarrow> world \<Rightarrow> string \<times> world" where
  "now E w = (utcnow E (clock w), w\<lparr>clock := Suc (clock w)\<rparr>)"

definition sleep :: "real \<Rightarrow> world \<Rightarrow> world" where
  "sleep secs w = emit (Sleep secs) w"

definition sqs_send_message :: "env \<Rightarrow> sqs_message \<Rightarrow> world \<Rightarrow> error option \<times> world" where
  "sqs_send_message E m w =
     (let r = send_message E (sqs_calls w) m
      in (r, emit (SendMessage m (r = None)) (w\<lparr>sqs_calls := Suc (sqs_calls w)\<rparr>)))"

section \<open>The status publisher of request\_files.py\<close>

text \<open>The two \<^verbatim>\<open>sqs.send_message\<close> calls in the body of the \<^verbatim>\<open>try\<close>.\<close>

definition bare_message :: "string \<Rightarrow> sqs_message" where
  "bare_message db_queue_url =
     \<lparr>QueueUrl = db_queue_url, MessageDeduplicationId = None, MessageGroupId = None,
      MessageAttributes = None, MessageBody = None\<rparr>"

definition full_message :: "string \<Rightarrow> RequestMethod \<Rightarrow> string \<Rightarrow> string \<Rightarrow> sqs_message" where
  "full_message table_name request_method db_queue_url body =
     \<lparr>QueueUrl = db_queue_url,
      MessageDeduplicationId = Some (table_name @ RequestMethod_value request_method @ body),
      MessageGroupId = Some ''request_files'',
      MessageAttributes = Some
        [(''RequestMethod'', ''String'', RequestMethod_value request_method),
         (''TableName'', ''String'', table_name)],
      MessageBody = Some body\<rparr>"

definition try_send :: "env \<Rightarrow> string \<Rightarrow> RequestMethod \<Rightarrow> string \<Rightarrow> string \<Rightarrow> world
    \<Rightarrow> error option \<times> world" where
  "try_send E table_name request_method db_queue_url body w =
     (case sqs_send_message E (bare_message db_queue_url) w of
        (Some e, w1) \<Rightarrow> (Some e, w1)
      | (None, w1) \<Rightarrow>
          sqs_send_message E (full_message table_name request_method db_queue_url body) w1)"

text \<open>
  The \<^verbatim>\<open>for attempt in range(1, max_retries + 1)\<close> loop over the attempts still to make.
  When the range is used up the function falls off its end and returns \<^verbatim>\<open>None\<close>.
\<close>

fun post_entry_loop :: "env \<Rightarrow> string \<Rightarrow> RequestMethod \<Rightarrow> string \<Rightarrow> string \<Rightarrow> int \<Rightarrow> real
    \<Rightarrow> int list \<Rightarrow> world \<Rightarrow> (error + unit) \<times> world" where
  "post_entry_loop E table_name request_method db_queue_url body max_retries retry_sleep_secs
     [] w = (Inr (), w)"
| "post_entry_loop E table_name request_method db_queue_url body max_retries retry_sleep_secs
     (attempt # rest) w =
     (case try_send E table_name request_method db_queue_url body w of
        (None, w1) \<Rightarrow> (Inr (), w1)
      | (Some e, w1) \<Rightarrow>
          if attempt = max_retries + 1 then (Inl e, w1)
          else post_entry_loop E table_name request_method db_queue_url body max_retries
                 retry_sleep_secs rest (sleep retry_sleep_secs w1))"

definition post_entry_to_queue :: "env \<Rightarrow> string \<Rightarrow> pydict \<Rightarrow> RequestMethod \<Rightarrow> string \<Rightarrow> int
    \<Rightarrow> real \<Rightarrow> world \<Rightarrow> (error + unit) \<times> world" where
  "post_entry_to_queue E table_name new_data request_method db_queue_url max_retries
     retry_sleep_secs w =
     (let body = json_dumps_indent4 E new_data
      in post_entry_loop E table_name request_method db_queue_url body max_retries
           retry_sleep_secs [1..max_retries] (emit (PostEntry table_name new_data request_method) w))"

text \<open>\<^verbatim>\<open>if v is not None: new_data[k] = v\<close>\<close>

definition set_if_not_None :: "pydict \<Rightarrow> string \<Rightarrow> json option \<Rightarrow> pydict" where
  "set_if_not_None new_data k v = (case v of None \<Rightarrow> new_data | Some x \<Rightarrow> new_data @ [(k, x)])"

definition job_new_data :: "string \<Rightarrow> string \<Rightarrow> int option \<Rightarrow> string option \<Rightarrow> string option
    \<Rightarrow> string option \<Rightarrow> pydict" where
  "job_new_data job_id granule_id status_id request_time completion_time archive_destination =
     (let new_data = [(''job_id'', JStr job_id), (''granule_id'', JStr granule_id)];
          new_data = set_if_not_None new_data ''status_id'' (map_option JInt status_id);
          new_data = set_if_not_None new_data ''request_time'' (map_option JStr request_time);
          new_data = set_if_not_None new_data ''completion_time'' (map_option JStr completion_time);
          new_data = set_if_not_None new_data ''archive_destination''
                       (map_option JStr archive_destination)
      in new_data)"

definition post_status_for_job_to_queue :: "env \<Rightarrow> string \<Rightarrow> string \<Rightarrow> int option
    \<Rightarrow> string option \<Rightarrow> string option \<Rightarrow> string option \<Rightarrow> RequestMethod \<Rightarrow> string \<Rightarrow> int
    \<Rightarrow> real \<Rightarrow> world \<Rightarrow> (error + unit) \<times> world" where
  "post_status_for_job_to_queue E job_id granule_id status_id request_time completion_time
     archive_destination request_method db_queue_url max_retries retry_sleep_secs w =
     post_entry_to_queue E ''orca_recoveryjob''
       (job_new_data job_id granule_id status_id request_time completion_time archive_destination)
       request_method db_queue_url max_retries retry_sleep_secs w"

definition file_new_data :: "string \<Rightarrow> string \<Rightarrow> string \<Rightarrow> string option \<Rightarrow> string option
    \<Rightarrow> int option \<Rightarrow> string option \<Rightarrow> string option \<Rightarrow> string option \<Rightarrow> string option
    \<Rightarrow> pydict" where
  "file_new_data job_id granule_id filename key_path restore_destination status_id error_message
     request_time last_update completion_time =
     (let new_data = [(''job_id'', JStr job_id), (''granule_id'', JStr granule_id),
                      (''filename'', JStr filename)];
          new_data = set_if_not_None new_data ''key_path'' (map_option JStr key_path);
          new_data = set_if_not_None new_data ''restore_destination''
                       (map_option JStr restore_destination);
          new_data = set_if_not_None new_data ''status_id'' (map_option JInt status_id);
          new_data = set_if_not_None new_data ''error_message'' (map_option JStr error_message);
          new_data = set_if_not_None new_data ''request_time'' (map_option JStr request_time);
          new_data = set_if_not_None new_data ''last_update'' (map_option JStr last_update);
          new_data = set_if_not_None new_data ''completion_time'' (map_option JStr completion_time)
      in new_data)"

definition post_status_for_file_to_queue :: "env \<Rightarrow> string \<Rightarrow> string \<Rightarrow> string \<Rightarrow> string option
    \<Rightarrow> string option \<Rightarrow> int option \<Rightarrow> string option \<Rightarrow> string option \<Rightarrow> string option
    \<Rightarrow> string option \<Rightarrow> RequestMethod \<Rightarrow> string \<Rightarrow> int \<Rightarrow> real \<Rightarrow> world
    \<Rightarrow> (error + unit) \<times> world" where
  "post_status_for_file_to_queue E job_id granule_id filename key_path restore_destination
     status_id error_message request_time last_update completion_time request_method db_queue_url
     max_retries retry_sleep_secs w =
     post_entry_to_queue E ''orca_recoverfile''
       (file_new_data job_id granule_id filename key_path restore_destination status_id
          error_message request_time last_update completion_time)
       request_method db_queue_url max_retries retry_sleep_secs w"

section \<open>The orchestrator: process\_granule\<close>

text \<open>
  The arguments of \<^verbatim>\<open>process_granule\<close> other than the S3 client and the granule. They do
  not change during the call.
\<close>

record pg_args =
  glacier_bucket :: string
  restore_expire_days :: int
  max_retries :: int
  retry_sleep_secs :: real
  retrieval_type :: string
  job_id :: string
  db_queue_url :: string

text \<open>\<^verbatim>\<open>os.path.basename\<close>: what follows the last slash.\<close>

definition basename :: "string \<Rightarrow> string" where
  "basename p = rev (takeWhile (\<lambda>c. c \<noteq> CHR ''/'') (rev p))"

definition restore_object :: "env \<Rightarrow> string \<Rightarrow> int \<Rightarrow> string \<Rightarrow> int \<Rightarrow> string \<Rightarrow> string \<Rightarrow> world
    \<Rightarrow> (error + unit) \<times> world" where
  "restore_object E file_key days db_glacier_bucket_key attempt jobid retrieval w =
     (case s3_restore_object E db_glacier_bucket_key file_key days retrieval attempt of
        Some (code, text) \<Rightarrow>
          (Inl (ClientError code text),
           emit (RestoreObject db_glacier_bucket_key file_key days retrieval attempt False) w)
      | None \<Rightarrow>
          (Inr (),
           emit (RestoreObject db_glacier_bucket_key file_key days retrieval attempt True) w))"

text \<open>
  \<^verbatim>\<open>except ClientError as err: a_file['err_msg'] = str(err)\<close>; any other exception leaves
  the loop and the function.
\<close>

definition except_ClientError :: "error \<Rightarrow> recover_file \<Rightarrow> world
    \<Rightarrow> (error + unit) \<times> recover_file \<times> world" where
  "except_ClientError err a_file w =
     (case err of
        ClientError code text \<Rightarrow> (Inr (), a_file\<lparr>err_msg := text\<rparr>, w)
      | _ \<Rightarrow> (Inl err, a_file, w))"

text \<open>The body of \<^verbatim>\<open>for a_file in granule['recover_files']\<close> inside the retry loop.\<close>

definition restore_file :: "env \<Rightarrow> pg_args \<Rightarrow> string \<Rightarrow> string \<Rightarrow> int \<Rightarrow> recover_file \<Rightarrow> world
    \<Rightarrow> (error + unit) \<times> recover_file \<times> world" where
  "restore_file E A granule_id request_time attempt a_file w =
     (if \<not> success a_file then
        (case restore_object E (key a_file) (restore_expire_days A) (glacier_bucket A) attempt
                (job_id A) (retrieval_type A) w of
           (Inl err, w1) \<Rightarrow> except_ClientError err a_file w1
         | (Inr u, w1) \<Rightarrow>
             (let a_file1 = a_file\<lparr>success := True\<rparr>;
                  a_file2 = a_file1\<lparr>err_msg := ''''\<rparr>;
                  (last_update, w2) = now E w1
              in case post_status_for_file_to_queue E (job_id A) granule_id
                        (basename (key a_file2)) (Some (key a_file2)) (Some (dest_bucket a_file2))
                        (Some ORCA_STATUS_PENDING) None (Some request_time) (Some last_update)
                        None POST (db_queue_url A) (max_retries A) (retry_sleep_secs A) w2 of
                   (Inl err, w3) \<Rightarrow> except_ClientError err a_file2 w3
                 | (Inr u, w3) \<Rightarrow> (Inr (), a_file2, w3)))
      else (Inr (), a_file, w))"

text \<open>One pass of the retry loop over the files, in list order.\<close>

fun restore_pass :: "env \<Rightarrow> pg_args \<Rightarrow> string \<Rightarrow> string \<Rightarrow> int \<Rightarrow> recover_file list \<Rightarrow> world
    \<Rightarrow> (error + unit) \<times> recover_file list \<times> world" where
  "restore_pass E A granule_id request_time attempt [] w = (Inr (), [], w)"
| "restore_pass E A granule_id request_time attempt (a_file # rest) w =
     (case restore_file E A granule_id request_time attempt a_file w of
        (Inl err, a_file', w1) \<Rightarrow> (Inl err, a_file' # rest, w1)
      | (Inr u, a_file', w1) \<Rightarrow>
          (case restore_pass E A granule_id request_time attempt rest w1 of
             (r, rest', w2) \<Rightarrow> (r, a_file' # rest', w2)))"

text \<open>
  \<^verbatim>\<open>while attempt <= max_retries + 1\<close>, from the given value of \<^verbatim>\<open>attempt\<close>. After a
  pass, \<^verbatim>\<open>attempt\<close> is incremented; if passes remain, the loop is left when every file
  has succeeded and sleeps otherwise.
\<close>

function retry_loop :: "env \<Rightarrow> pg_args \<Rightarrow> string \<Rightarrow> string \<Rightarrow> int \<Rightarrow> recover_file list \<Rightarrow> world
    \<Rightarrow> (error + unit) \<times> recover_file list \<times> world" where
  "retry_loop E A granule_id request_time attempt files w =
     (if attempt \<le> max_retries A + 1 then
        (case restore_pass E A granule_id request_time attempt files w of
           (Inl err, files', w1) \<Rightarrow> (Inl err, files', w1)
         | (Inr u, files', w1) \<Rightarrow>
             if attempt + 1 \<le> max_retries A + 1 then
               if list_all success files' then (Inr (), files', w1)
               else retry_loop E A granule_id request_time (attempt + 1) files'
                      (sleep (retry_sleep_secs A) w1)
             else retry_loop E A granule_id request_time (attempt + 1) files' w1)
      else (Inr (), files, w))"
  by pat_completeness auto
termination
  by (relation "measure (\<lambda>(E, A, granule_id, request_time, attempt, files, w).
        nat (max_retries A + 2 - attempt))") auto

text \<open>
  The loop after the retries: a \<^verbatim>\<open>FAILED\<close> status is posted for every file whose
  \<^verbatim>\<open>success\<close> is still false; the result is \<^verbatim>\<open>any_error\<close>.
\<close>

fun report_failures :: "env \<Rightarrow> pg_args \<Rightarrow> string \<Rightarrow> string \<Rightarrow> recover_file list \<Rightarrow> bool \<Rightarrow> world
    \<Rightarrow> (error + bool) \<times> world" where
  "report_failures E A granule_id request_time [] any_error w = (Inr any_error, w)"
| "report_failures E A granule_id request_time (a_file # rest) any_error w =
     (if \<not> success a_file then
        (let (last_update, w1) = now E w
         in case post_status_for_file_to_queue E (job_id A) granule_id
                   (basename (key a_file)) (Some (key a_file)) (Some (dest_bucket a_file))
                   (Some ORCA_STATUS_FAILED) (Some (err_msg a_file)) (Some request_time)
                   (Some last_update) None POST (db_queue_url A) (max_retries A)
                   (retry_sleep_secs A) w1 of
              (Inl err, w2) \<Rightarrow> (Inl err, w2)
            | (Inr u, w2) \<Rightarrow> report_failures E A granule_id request_time rest True w2)
      else report_failures E A granule_id request_time rest any_error w)"

text \<open>
  \<^verbatim>\<open>process_granule\<close> returns its outcome, the granule as it has been mutated, and the
  world. The granule is returned on an exception too, since the caller's dict is changed
  in place.
\<close>

definition process_granule :: "env \<Rightarrow> granule \<Rightarrow> pg_args \<Rightarrow> world
    \<Rightarrow> (error + unit) \<times> granule \<times> world" where
  "process_granule E g A w =
     (let (request_time, w0) = now E w
      in case granuleId g of
           None \<Rightarrow> (Inl (KeyError ''granuleId''), g, w0)
         | Some granule_id \<Rightarrow>
             (case post_status_for_job_to_queue E (job_id A) granule_id (Some ORCA_STATUS_PENDING)
                     (Some request_time) None (Some (glacier_bucket A)) POST (db_queue_url A)
                     (max_retries A) (retry_sleep_secs A) w0 of
                (Inl err, w1) \<Rightarrow> (Inl err, g, w1)
              | (Inr u, w1) \<Rightarrow>
                  (case recover_files g of
                     None \<Rightarrow> (Inl (KeyError ''recover_files''), g, w1)
                   | Some files \<Rightarrow>
                       (case retry_loop E A granule_id request_time 1 files w1 of
                          (Inl err, files', w2) \<Rightarrow> (Inl err, g\<lparr>recover_files := Some files'\<rparr>, w2)
                        | (Inr u, files', w2) \<Rightarrow>
                            (let g' = g\<lparr>recover_files := Some files'\<rparr>
                             in case report_failures E A granule_id request_time files' False w2 of
                                  (Inl err, w3) \<Rightarrow> (Inl err, g', w3)
                                | (Inr any_error, w3) \<Rightarrow>
                                    if any_error then
                                      (Inl (RestoreRequestError
                                         [Text ''One or more files failed to be requested. '',
                                          Interp_granule g']), g', w3)
                                    else (Inr (), g', w3))))))"

section \<open>The task: object\_exists and inner\_task\<close>

definition object_exists :: "env \<Rightarrow> string \<Rightarrow> string \<Rightarrow> world \<Rightarrow> (error + bool) \<times> world" where
  "object_exists E bucket file_key w =
     (let w1 = emit (HeadObject bucket file_key) w
      in case head_object E bucket file_key of
           None \<Rightarrow> (Inr True, w1)
         | Some (code, text) \<Rightarrow>
             if code = ''NoSuchKey'' \<or> code = ''NotFound'' then (Inr False, w1)
             else (Inl (ClientError code text), w1))"

text \<open>\<^verbatim>\<open>for keys in granule['keys']\<close>, with the list \<^verbatim>\<open>files\<close> built so far.\<close>

fun keys_loop :: "env \<Rightarrow> string \<Rightarrow> file_key list \<Rightarrow> recover_file list \<Rightarrow> world
    \<Rightarrow> (error + recover_file list) \<times> world" where
  "keys_loop E bucket [] files w = (Inr files, w)"
| "keys_loop E bucket (k # rest) files w =
     (let file_key = fk_key k;
          destination_bucket_name = fk_dest_bucket k
      in case object_exists E bucket file_key w of
           (Inl err, w1) \<Rightarrow> (Inl err, w1)
         | (Inr True, w1) \<Rightarrow>
             keys_loop E bucket rest
               (files @ [\<lparr>key = file_key, dest_bucket = destination_bucket_name,
                          success = False, err_msg = ''''\<rparr>]) w1
         | (Inr False, w1) \<Rightarrow> keys_loop E bucket rest files w1)"

text \<open>\<^verbatim>\<open>for granule in granules\<close>, with the value of \<^verbatim>\<open>copied_granule\<close> so far.\<close>

fun granules_loop :: "env \<Rightarrow> string \<Rightarrow> granule list \<Rightarrow> granule \<Rightarrow> world
    \<Rightarrow> (error + granule) \<times> world" where
  "granules_loop E bucket [] copied_granule w = (Inr copied_granule, w)"
| "granules_loop E bucket (g # rest) copied_granule w =
     (case keys g of
        None \<Rightarrow> (Inl (KeyError ''keys''), w)
      | Some ks \<Rightarrow>
          (case keys_loop E bucket ks [] w of
             (Inl err, w1) \<Rightarrow> (Inl err, w1)
           | (Inr files, w1) \<Rightarrow>
               granules_loop E bucket rest (g\<lparr>recover_files := Some files\<rparr>) w1))"

definition inner_task :: "env \<Rightarrow> event \<Rightarrow> int \<Rightarrow> real \<Rightarrow> string \<Rightarrow> int \<Rightarrow> string \<Rightarrow> world
    \<Rightarrow> (error + task_output) \<times> world" where
  "inner_task E ev max_retries_arg retry_sleep retrieval restore_days queue_url w =
     (case config_glacier_bucket ev of
        None \<Rightarrow>
          (Inl (RestoreRequestError
             [Text ''request: '', Interp_event ev,
              Text '' does not contain a config value for glacier-bucket'']), w)
      | Some bucket \<Rightarrow>
          (let granules = input_granules ev
           in if length granules > 1 then
                (Inl (RestoreRequestError
                   [Text ''request_files can only accept 1 granule in the list. '',
                    Text ''This input contains '', Interp_len (length granules)]), w)
              else
                (case granules_loop E bucket granules empty_granule w of
                   (Inl err, w1) \<Rightarrow> (Inl err, w1)
                 | (Inr copied_granule, w1) \<Rightarrow>
                     (case input_job_id ev of
                        None \<Rightarrow> (Inl (KeyError ''job_id''), w1)
                      | Some jid \<Rightarrow>
                          (case process_granule E copied_granule
                                  \<lparr>glacier_bucket = bucket, restore_expire_days = restore_days,
                                   max_retries = max_retries_arg, retry_sleep_secs = retry_sleep,
                                   retrieval_type = retrieval, job_id = jid,
                                   db_queue_url = queue_url\<rparr> w1 of
                             (Inl err, g', w2) \<Rightarrow> (Inl err, w2)
                           | (Inr u, g', w2) \<Rightarrow>
                               (Inr \<lparr>out_granules = [g'], out_job_id = jid\<rparr>, w2))))))"

section \<open>shared\_recovery.py\<close>

datatype sr_RequestMethod = NEW_JOB | UPDATE_FILE

fun sr_RequestMethod_value :: "sr_RequestMethod \<Rightarrow> string" where
  "sr_RequestMethod_value NEW_JOB = ''new_job''"
| "sr_RequestMethod_value UPDATE_FILE = ''update_file''"

datatype OrcaStatus = PENDING | STAGED | FAILED | SUCCESS

fun OrcaStatus_value :: "OrcaStatus \<Rightarrow> int" where
  "OrcaStatus_value PENDING = 1"
| "OrcaStatus_value STAGED = 2"
| "OrcaStatus_value FAILED = 3"
| "OrcaStatus_value SUCCESS = 4"

text \<open>
  \<^verbatim>\<open>post_entry_to_queue\<close> of shared\_recovery.py: one \<^verbatim>\<open>send_message\<close>, no retry. Its
  serialiser is \<^verbatim>\<open>json.dumps(new_data)\<close>, a parameter here.
\<close>

definition sr_message :: "string \<Rightarrow> sr_RequestMethod \<Rightarrow> string \<Rightarrow> string \<Rightarrow> sqs_message" where
  "sr_message table_name request_method queue_url body =
     \<lparr>QueueUrl = queue_url,
      MessageDeduplicationId = Some (table_name @ sr_RequestMethod_value request_method @ body),
      MessageGroupId = Some ''request_files'',
      MessageAttributes = Some
        [(''RequestMethod'', ''String'', sr_RequestMethod_value request_method),
         (''TableName'', ''String'', table_name)],
      MessageBody = Some body\<rparr>"

definition sr_post_entry_to_queue :: "env \<Rightarrow> (pydict \<Rightarrow> string) \<Rightarrow> string \<Rightarrow> pydict
    \<Rightarrow> sr_RequestMethod \<Rightarrow> string \<Rightarrow> world \<Rightarrow> (error + unit) \<times> world" where
  "sr_post_entry_to_queue E json_dumps table_name new_data request_method queue_url w =
     (let body = json_dumps new_data
      in case sqs_send_message E (sr_message table_name request_method queue_url body) w of
           (Some e, w1) \<Rightarrow> (Inl e, w1)
         | (None, w1) \<Rightarrow> (Inr (), w1))"

section \<open>Reading the trace\<close>

text \<open>The effects a delivery makes: sending and sleeping.\<close>

definition delivery :: "sqs_message \<Rightarrow> sqs_message \<Rightarrow> real \<Rightarrow> effect \<Rightarrow> bool" where
  "delivery bare full secs e =
     (case e of SendMessage m ok \<Rightarrow> m = bare \<or> m = full | Sleep s \<Rightarrow> s = secs | _ \<Rightarrow> False)"

fun is_delivery :: "effect \<Rightarrow> bool" where
  "is_delivery (SendMessage m ok) = True"
| "is_delivery (Sleep s) = True"
| "is_delivery _ = False"

text \<open>The keys of the restore calls, in order.\<close>

fun restored_keys :: "effect list \<Rightarrow> string list" where
  "restored_keys [] = []"
| "restored_keys (RestoreObject b k d t a ok # es) = k # restored_keys es"
| "restored_keys (e # es) = restored_keys es"

text \<open>A status event with the status \<^verbatim>\<open>PENDING\<close> for the job table, for the file table.\<close>

fun is_job_pending :: "effect \<Rightarrow> bool" where
  "is_job_pending (PostEntry t d m) =
     (t = ''orca_recoveryjob'' \<and> map_of d ''status_id'' = Some (JInt ORCA_STATUS_PENDING))"
| "is_job_pending _ = False"

definition is_file_pending :: "string \<Rightarrow> pydict \<Rightarrow> bool" where
  "is_file_pending t d =
     (t = ''orca_recoverfile'' \<and> map_of d ''status_id'' = Some (JInt ORCA_STATUS_PENDING))"

text \<open>
  The file-level \<^verbatim>\<open>PENDING\<close> events of a trace, each with its \<^verbatim>\<open>key_path\<close> and the pass
  it is emitted in: the attempt number of the latest restore call before it (\<open>c\<close> when
  there is none).
\<close>

fun pending_passes :: "int \<Rightarrow> effect list \<Rightarrow> (json option \<times> int) list" where
  "pending_passes c [] = []"
| "pending_passes c (RestoreObject b k d t a ok # es) = pending_passes a es"
| "pending_passes c (PostEntry t d m # es) =
     (if is_file_pending t d then [(map_of d ''key_path'', c)] else []) @ pending_passes c es"
| "pending_passes c (e # es) = pending_passes c es"

text \<open>
  The first pass from \<open>a\<close> on, among those the retry loop can make, in which S3 accepts
  the restore request for the key.
\<close>

definition attempt_ok :: "env \<Rightarrow> pg_args \<Rightarrow> string \<Rightarrow> int \<Rightarrow> bool" where
  "attempt_ok E A k p =
     (s3_restore_object E (glacier_bucket A) k (restore_expire_days A) (retrieval_type A) p = None)"

definition first_ok_from :: "env \<Rightarrow> pg_args \<Rightarrow> int \<Rightarrow> string \<Rightarrow> int option" where
  "first_ok_from E A a k = find (attempt_ok E A k) [a..max_retries A + 1]"

text \<open>
  What one pass does to a file, in the words of the specification: a file that has
  succeeded is left alone; on success \<^verbatim>\<open>success\<close> is set and \<^verbatim>\<open>err_msg\<close> cleared; on a
  restore error the message is recorded.
\<close>

definition pass_step :: "env \<Rightarrow> pg_args \<Rightarrow> int \<Rightarrow> recover_file \<Rightarrow> recover_file" where
  "pass_step E A k f =
     (if success f then f
      else case s3_restore_object E (glacier_bucket A) (key f) (restore_expire_days A)
                  (retrieval_type A) k of
             None \<Rightarrow> f\<lparr>success := True, err_msg := ''''\<rparr>
           | Some (code, text) \<Rightarrow> f\<lparr>err_msg := text\<rparr>)"

text \<open>How a file entry may change over any number of passes.\<close>

definition evolves :: "recover_file \<Rightarrow> recover_file \<Rightarrow> bool" where
  "evolves f f' =
     (key f' = key f \<and> dest_bucket f' = dest_bucket f \<and> (success f \<longrightarrow> f' = f)
      \<and> (\<not> success f \<and> success f' \<longrightarrow> err_msg f' = ''''))"

text \<open>The entry that \<^verbatim>\<open>inner_task\<close> creates for a key that is in the bucket.\<close>

definition new_file :: "file_key \<Rightarrow> recover_file" where
  "new_file k = \<lparr>key = fk_key k, dest_bucket = fk_dest_bucket k, success = False, err_msg = ''''\<rparr>"

text \<open>
  The granules a result of \<^verbatim>\<open>inner_task\<close> shows to the caller: those of the output, or
  those interpolated in the message of a \<^verbatim>\<open>RestoreRequestError\<close>.
\<close>

fun fragment_granules :: "fragment \<Rightarrow> granule list" where
  "fragment_granules (Interp_granule g) = [g]"
| "fragment_granules _ = []"

definition result_granules :: "error + task_output \<Rightarrow> granule list" where
  "result_granules res =
     (case res of
        Inr out \<Rightarrow> out_granules out
      | Inl (RestoreRequestError frs) \<Rightarrow> concat (map fragment_granules frs)
      | Inl _ \<Rightarrow> [])"

text \<open>The deduplication keys attached to the messages sent in a trace, in order.\<close>

fun dedup_ids :: "effect list \<Rightarrow> string list" where
  "dedup_ids [] = []"
| "dedup_ids (SendMessage m ok # es) =
     (case MessageDeduplicationId m of None \<Rightarrow> dedup_ids es | Some i \<Rightarrow> i # dedup_ids es)"
| "dedup_ids (e # es) = dedup_ids es"

text \<open>The keys of the \<^verbatim>\<open>recover_files\<close> of those granules.\<close>

definition result_keys :: "error + task_output \<Rightarrow> string list" where
  "result_keys res =
     concat (map (\<lambda>g. case recover_files g of None \<Rightarrow> [] | Some fs \<Rightarrow> map key fs)
               (result_granules res))"

section \<open>Example inputs\<close>

text \<open>
  A serialiser for the examples: length-prefixed, so that different dictionaries have
  different texts. It stands in for \<^verbatim>\<open>json.dumps\<close> where a concrete one is needed.
\<close>

definition enc_nat :: "nat \<Rightarrow> string" where
  "enc_nat n = replicate n (CHR ''1'') @ ''0''"

definition enc_str :: "string \<Rightarrow> string" where
  "enc_str s = enc_nat (length s) @ s"

fun enc_json :: "json \<Rightarrow> string" where
  "enc_json (JStr s) = CHR ''s'' # enc_str s"
| "enc_json (JInt i) = (if i < 0 then CHR ''-'' else CHR ''+'') # enc_nat (nat \<bar>i\<bar>)"

definition enc_entry :: "string \<times> json \<Rightarrow> string" where
  "enc_entry kv = enc_str (fst kv) @ enc_json (snd kv)"

definition example_dumps :: "pydict \<Rightarrow> string" where
  "example_dumps d = concat (map enc_entry d)"

definition w_init :: world where
  "w_init = \<lparr>trace = [], clock = 0, sqs_calls = 0\<rparr>"

text \<open>
  S3 has every object but \<^verbatim>\<open>missing.nc\<close>, and answers \<^verbatim>\<open>AccessDenied\<close> for the probe of
  \<^verbatim>\<open>locked.nc\<close>; the restore of \<^verbatim>\<open>slow.nc\<close> is accepted from the second attempt on, the
  restore of \<^verbatim>\<open>denied.nc\<close> never, any other at once. The queue takes every message.
\<close>

definition example_head :: "string \<Rightarrow> string \<Rightarrow> (string \<times> string) option" where
  "example_head b k =
     (if k = ''missing.nc'' then Some (''NotFound'', ''Not Found'')
      else if k = ''locked.nc'' then Some (''AccessDenied'', ''Access Denied'')
      else None)"

definition example_restore :: "string \<Rightarrow> string \<Rightarrow> int \<Rightarrow> string \<Rightarrow> int
    \<Rightarrow> (string \<times> string) option" where
  "example_restore b k d t a =
     (if k = ''denied.nc'' then Some (''AccessDenied'', ''AccessDenied'')
      else if k = ''slow.nc'' \<and> a < 2 then Some (''SlowDown'', ''SlowDown'')
      else None)"

definition env_queue_up :: env where
  "env_queue_up =
     \<lparr>head_object = example_head, s3_restore_object = example_restore,
      send_message = (\<lambda>n m. None), utcnow = (\<lambda>n. ''2021-01-01T00:00:00+00:00''),
      json_dumps_indent4 = example_dumps\<rparr>"

text \<open>The same, with a queue that refuses every message.\<close>

definition env_queue_down :: env where
  "env_queue_down =
     \<lparr>head_object = example_head, s3_restore_object = example_restore,
      send_message = (\<lambda>n m. Some (Exception ''queue down'')),
      utcnow = (\<lambda>n. ''2021-01-01T00:00:00+00:00''),
      json_dumps_indent4 = example_dumps\<rparr>"

definition example_args :: pg_args where
  "example_args =
     \<lparr>glacier_bucket = ''glacier'', restore_expire_days = 5, max_retries = 2,
      retry_sleep_secs = 0, retrieval_type = ''Standard'', job_id = ''j1'',
      db_queue_url = ''url''\<rparr>"

definition example_file :: "string \<Rightarrow> recover_file" where
  "example_file k = \<lparr>key = k, dest_bucket = ''b'', success = False, err_msg = ''''\<rparr>"

definition example_granule :: "string list \<Rightarrow> granule" where
  "example_granule ks =
     \<lparr>granuleId = Some ''G1'',
      keys = Some (map (\<lambda>k. \<lparr>fk_key = k, fk_dest_bucket = ''b''\<rparr>) ks),
      recover_files = Some (map example_file ks)\<rparr>"

definition example_event :: "string list \<Rightarrow> event" where
  "example_event ks =
     \<lparr>config_glacier_bucket = Some ''glacier'',
      input_granules =
        [\<lparr>granuleId = Some ''G1'',
          keys = Some (map (\<lambda>k. \<lparr>fk_key = k, fk_dest_bucket = ''b''\<rparr>) ks),
          recover_files = None\<rparr>],
      input_job_id = Some ''j1''\<rparr>"

definition empty_event :: event where
  "empty_event =
     \<lparr>config_glacier_bucket = Some ''glacier'', input_granules = [], input_job_id = Some ''j1''\<rparr>"

text \<open>The status events of the file table in a trace, with their payloads.\<close>

fun file_events :: "effect list \<Rightarrow> pydict list" where
  "file_events [] = []"
| "file_events (PostEntry t d m # es) =
     (if t = ''orca_recoverfile'' then d # file_events es else file_events es)"
| "file_events (e # es) = file_events es"

section \<open>Properties\<close>

lemma trace_emit [simp]: "trace (emit e w) = trace w @ [e]"
  and clock_emit [simp]: "clock (emit e w) = clock w"
  and sqs_calls_emit [simp]: "sqs_calls (emit e w) = sqs_calls w"
  by (simp_all add: emit_def)

lemma try_send_trace:
  assumes "try_send E t rm url body w = (r, w')"
  shows "\<exists>es. trace w' = trace w @ es \<and> clock w' = clock w
            \<and> list_all (delivery (bare_message url) (full_message t rm url body) secs) es"
  using assms
  by (auto simp: try_send_def sqs_send_message_def Let_def delivery_def split: option.splits)

lemma post_entry_loop_returns:
  assumes "\<forall>a\<in>set atts. a \<noteq> mr + 1"
  shows "\<exists>w' es. post_entry_loop E t rm url body mr secs atts w = (Inr (), w')
            \<and> trace w' = trace w @ es \<and> clock w' = clock w
            \<and> list_all (delivery (bare_message url) (full_message t rm url body) secs) es"
  using assms
proof (induction atts arbitrary: w)
  case Nil
  then show ?case by simp
next
  case (Cons a atts)
  obtain r w1 where ts: "try_send E t rm url body w = (r, w1)"
    by (cases "try_send E t rm url body w")
  from try_send_trace [OF ts, of secs] obtain es1 where
    es1: "trace w1 = trace w @ es1" "clock w1 = clock w"
      "list_all (delivery (bare_message url) (full_message t rm url body) secs) es1"
    by blast
  show ?case
  proof (cases r)
    case None
    with ts es1 show ?thesis by simp
  next
    case (Some e)
    from Cons.prems have ne: "a \<noteq> mr + 1" and rest: "\<forall>a\<in>set atts. a \<noteq> mr + 1" by simp_all
    from Cons.IH [OF rest, of "sleep secs w1"] obtain w' es where
      IH: "post_entry_loop E t rm url body mr secs atts (sleep secs w1) = (Inr (), w')"
        "trace w' = trace (sleep secs w1) @ es" "clock w' = clock (sleep secs w1)"
        "list_all (delivery (bare_message url) (full_message t rm url body) secs) es"
      by blast
    have "trace w' = trace w @ (es1 @ Sleep secs # es)"
      using IH(2) es1(1) by (simp add: sleep_def)
    moreover have "list_all (delivery (bare_message url) (full_message t rm url body) secs)
                     (es1 @ Sleep secs # es)"
      using es1(3) IH(4) by (simp add: delivery_def)
    moreover have "clock w' = clock w" using IH(3) es1(2) by (simp add: sleep_def)
    ultimately show ?thesis
      using ts Some ne IH(1) by auto
  qed
qed

lemma post_entry_to_queue_returns:
  "\<exists>w' es. post_entry_to_queue E t d rm url mr secs w = (Inr (), w')
      \<and> trace w' = trace w @ PostEntry t d rm # es \<and> clock w' = clock w
      \<and> list_all (delivery (bare_message url)
            (full_message t rm url (json_dumps_indent4 E d)) secs) es"
proof -
  have "\<forall>a\<in>set [1..mr]. a \<noteq> mr + 1" by simp
  from post_entry_loop_returns [OF this, of E t rm url "json_dumps_indent4 E d" secs
      "emit (PostEntry t d rm) w"]
  show ?thesis
    by (auto simp: post_entry_to_queue_def Let_def)
qed

lemma delivery_is_delivery: "delivery b f s e \<Longrightarrow> is_delivery e"
  by (cases e) (simp_all add: delivery_def)

lemma restored_keys_append [simp]: "restored_keys (xs @ ys) = restored_keys xs @ restored_keys ys"
  by (induction xs rule: restored_keys.induct) simp_all

lemma pending_passes_quiet:
  "list_all is_delivery es \<Longrightarrow> pending_passes c (es @ ys) = pending_passes c ys"
  by (induction c es rule: pending_passes.induct) simp_all

lemma restored_keys_quiet: "list_all is_delivery es \<Longrightarrow> restored_keys es = []"
  by (induction es rule: restored_keys.induct) simp_all

lemma job_pending_quiet: "list_all is_delivery es \<Longrightarrow> filter is_job_pending es = []"
  by (induction es) (auto elim: is_delivery.elims)

text \<open>A status post: the event, then deliveries.\<close>

lemma post_entry_summary:
  "\<exists>w' es. post_entry_to_queue E t d rm url mr secs w = (Inr (), w')
      \<and> trace w' = trace w @ PostEntry t d rm # es \<and> clock w' = clock w
      \<and> list_all is_delivery es"
proof -
  from post_entry_to_queue_returns [of E t d rm url mr secs w] obtain w' es where
    h: "post_entry_to_queue E t d rm url mr secs w = (Inr (), w')"
       "trace w' = trace w @ PostEntry t d rm # es" "clock w' = clock w"
       "list_all (delivery (bare_message url)
            (full_message t rm url (json_dumps_indent4 E d)) secs) es"
    by blast
  from h(4) have "list_all is_delivery es"
    by (auto simp: list_all_iff intro: delivery_is_delivery)
  with h show ?thesis by blast
qed

lemma file_new_data_pending:
  "file_new_data j g fn (Some k) (Some b) (Some s) None (Some rt) (Some lu) None =
     [(''job_id'', JStr j), (''granule_id'', JStr g), (''filename'', JStr fn),
      (''key_path'', JStr k), (''restore_destination'', JStr b), (''status_id'', JInt s),
      (''request_time'', JStr rt), (''last_update'', JStr lu)]"
  by (simp add: file_new_data_def set_if_not_None_def)

lemma file_new_data_failed:
  "file_new_data j g fn (Some k) (Some b) (Some s) (Some m) (Some rt) (Some lu) None =
     [(''job_id'', JStr j), (''granule_id'', JStr g), (''filename'', JStr fn),
      (''key_path'', JStr k), (''restore_destination'', JStr b), (''status_id'', JInt s),
      (''error_message'', JStr m), (''request_time'', JStr rt), (''last_update'', JStr lu)]"
  by (simp add: file_new_data_def set_if_not_None_def)

lemma job_new_data_pending:
  "job_new_data j g (Some s) (Some rt) None (Some a) =
     [(''job_id'', JStr j), (''granule_id'', JStr g), (''status_id'', JInt s),
      (''request_time'', JStr rt), (''archive_destination'', JStr a)]"
  by (simp add: job_new_data_def set_if_not_None_def)

lemma restore_file_summary:
  "\<exists>w' es. restore_file E A gid rt k f w = (Inr (), pass_step E A k f, w')
      \<and> trace w' = trace w @ es
      \<and> restored_keys es = (if success f then [] else [key f])
      \<and> filter is_job_pending es = []
      \<and> (\<forall>c ys. pending_passes c (es @ ys) =
            (if \<not> success f \<and> attempt_ok E A (key f) k then [(Some (JStr (key f)), k)] else [])
            @ pending_passes (if success f then c else k) ys)"
proof (cases "success f")
  case True
  then show ?thesis by (simp add: restore_file_def pass_step_def)
next
  case False
  show ?thesis
  proof (cases "s3_restore_object E (glacier_bucket A) (key f) (restore_expire_days A)
                  (retrieval_type A) k")
    case (Some ct)
    obtain code msg where ct: "ct = (code, msg)" by (cases ct)
    from False Some ct show ?thesis
      by (simp add: restore_file_def pass_step_def restore_object_def except_ClientError_def
          attempt_ok_def)
  next
    case None
    let ?f2 = "f\<lparr>success := True, err_msg := ''''\<rparr>"
    let ?w1 = "emit (RestoreObject (glacier_bucket A) (key f) (restore_expire_days A)
                       (retrieval_type A) k True) w"
    let ?d = "file_new_data (job_id A) gid (basename (key f)) (Some (key f))
                (Some (dest_bucket f)) (Some ORCA_STATUS_PENDING) None (Some rt)
                (Some (utcnow E (clock w))) None"
    from post_entry_summary [of E "''orca_recoverfile''" ?d POST "db_queue_url A"
        "max_retries A" "retry_sleep_secs A" "?w1\<lparr>clock := Suc (clock w)\<rparr>"]
    obtain w' ds where
      p: "post_entry_to_queue E ''orca_recoverfile'' ?d POST (db_queue_url A) (max_retries A)
            (retry_sleep_secs A) (?w1\<lparr>clock := Suc (clock w)\<rparr>) = (Inr (), w')"
         "trace w' = trace (?w1\<lparr>clock := Suc (clock w)\<rparr>) @ PostEntry ''orca_recoverfile'' ?d POST # ds"
         "list_all is_delivery ds"
      by blast
    have rf: "restore_file E A gid rt k f w = (Inr (), ?f2, w')"
      using False None p(1)
      by (simp add: restore_file_def restore_object_def now_def post_status_for_file_to_queue_def)
    have ps: "pass_step E A k f = ?f2"
      using False None by (simp add: pass_step_def)
    have pend: "is_file_pending ''orca_recoverfile'' ?d" "map_of ?d ''key_path'' = Some (JStr (key f))"
      by (simp_all add: is_file_pending_def file_new_data_pending)
    have njob: "\<not> is_job_pending (PostEntry ''orca_recoverfile'' ?d POST)"
      by simp
    let ?es = "RestoreObject (glacier_bucket A) (key f) (restore_expire_days A)
                       (retrieval_type A) k True # PostEntry ''orca_recoverfile'' ?d POST # ds"
    have tr: "trace w' = trace w @ ?es" using p(2) by simp
    have rk: "restored_keys ?es = [key f]"
      using restored_keys_quiet [OF p(3)] by simp
    have jp: "filter is_job_pending ?es = []"
      using job_pending_quiet [OF p(3)] njob by simp
    have pp: "\<forall>c ys. pending_passes c (?es @ ys) = [(Some (JStr (key f)), k)] @ pending_passes k ys"
      using pending_passes_quiet [OF p(3)] pend by simp
    show ?thesis
      using rf ps tr rk jp pp False None
      by (intro exI [of _ w'] exI [of _ ?es]) (simp add: attempt_ok_def)
  qed
qed

declare retry_loop.simps [simp del]

lemma pass_step_key [simp]: "key (pass_step E A k f) = key f"
  and pass_step_dest [simp]: "dest_bucket (pass_step E A k f) = dest_bucket f"
  by (simp_all add: pass_step_def split: option.splits)

lemma pass_step_success:
  "success (pass_step E A k f) = (success f \<or> attempt_ok E A (key f) k)"
  by (auto simp: pass_step_def attempt_ok_def split: option.splits)

lemma pass_step_evolves: "evolves f (pass_step E A k f)"
  by (auto simp: evolves_def pass_step_def split: option.splits)

lemma restore_pass_summary:
  "\<exists>w' es. restore_pass E A gid rt k files w = (Inr (), map (pass_step E A k) files, w')
      \<and> trace w' = trace w @ es
      \<and> restored_keys es = map key (filter (\<lambda>f. \<not> success f) files)
      \<and> filter is_job_pending es = []
      \<and> (\<forall>c ys. pending_passes c (es @ ys) =
            map (\<lambda>f. (Some (JStr (key f)), k))
              (filter (\<lambda>f. \<not> success f \<and> attempt_ok E A (key f) k) files)
            @ pending_passes (if list_all success files then c else k) ys)"
proof (induction files arbitrary: w)
  case Nil
  show ?case by simp
next
  case (Cons f rest)
  from restore_file_summary [of E A gid rt k f w] obtain w1 es1 where
    f: "restore_file E A gid rt k f w = (Inr (), pass_step E A k f, w1)"
       "trace w1 = trace w @ es1"
       "restored_keys es1 = (if success f then [] else [key f])"
       "filter is_job_pending es1 = []"
       "\<forall>c ys. pending_passes c (es1 @ ys) =
            (if \<not> success f \<and> attempt_ok E A (key f) k then [(Some (JStr (key f)), k)] else [])
            @ pending_passes (if success f then c else k) ys"
    by blast
  from Cons.IH [of w1] obtain w2 es2 where
    r: "restore_pass E A gid rt k rest w1 = (Inr (), map (pass_step E A k) rest, w2)"
       "trace w2 = trace w1 @ es2"
       "restored_keys es2 = map key (filter (\<lambda>f. \<not> success f) rest)"
       "filter is_job_pending es2 = []"
       "\<forall>c ys. pending_passes c (es2 @ ys) =
            map (\<lambda>f. (Some (JStr (key f)), k))
              (filter (\<lambda>f. \<not> success f \<and> attempt_ok E A (key f) k) rest)
            @ pending_passes (if list_all success rest then c else k) ys"
    by blast
  have res: "restore_pass E A gid rt k (f # rest) w = (Inr (), map (pass_step E A k) (f # rest), w2)"
    using f(1) r(1) by simp
  have tr: "trace w2 = trace w @ (es1 @ es2)"
    using f(2) r(2) by simp
  have rk: "restored_keys (es1 @ es2) = map key (filter (\<lambda>f. \<not> success f) (f # rest))"
    using f(3) r(3) by simp
  have jp: "filter is_job_pending (es1 @ es2) = []"
    using f(4) r(4) by simp
  have pp: "\<forall>c ys. pending_passes c ((es1 @ es2) @ ys) =
            map (\<lambda>f. (Some (JStr (key f)), k))
              (filter (\<lambda>f. \<not> success f \<and> attempt_ok E A (key f) k) (f # rest))
            @ pending_passes (if list_all success (f # rest) then c else k) ys"
  proof (intro allI)
    fix c ys
    have "pending_passes c ((es1 @ es2) @ ys) = pending_passes c (es1 @ (es2 @ ys))"
      by simp
    also have "\<dots> = (if \<not> success f \<and> attempt_ok E A (key f) k then [(Some (JStr (key f)), k)] else [])
            @ pending_passes (if success f then c else k) (es2 @ ys)"
      using f(5) by blast
    also have "pending_passes (if success f then c else k) (es2 @ ys) =
            map (\<lambda>f. (Some (JStr (key f)), k))
              (filter (\<lambda>f. \<not> success f \<and> attempt_ok E A (key f) k) rest)
            @ pending_passes (if list_all success rest then (if success f then c else k) else k) ys"
      using r(5) by blast
    finally show "pending_passes c ((es1 @ es2) @ ys) =
            map (\<lambda>f. (Some (JStr (key f)), k))
              (filter (\<lambda>f. \<not> success f \<and> attempt_ok E A (key f) k) (f # rest))
            @ pending_passes (if list_all success (f # rest) then c else k) ys"
      by simp
  qed
  from res tr rk jp pp show ?case by blast
qed

lemma evolves_refl: "evolves f f"
  by (simp add: evolves_def)

lemma evolves_trans: "evolves f g \<Longrightarrow> evolves g h \<Longrightarrow> evolves f h"
  by (auto simp: evolves_def)

lemma list_all2_evolves_refl: "list_all2 evolves fs fs"
  by (simp add: list_all2_refl evolves_refl)

lemma list_all2_evolves_trans:
  "list_all2 evolves fs gs \<Longrightarrow> list_all2 evolves gs hs \<Longrightarrow> list_all2 evolves fs hs"
  by (rule list_all2_trans [of evolves evolves evolves]) (auto intro: evolves_trans)

lemma list_all2_pass_step: "list_all2 evolves fs (map (pass_step E A k) fs)"
  by (simp add: list_all2_conv_all_nth pass_step_evolves)

lemma unsuccessful_keys_pass:
  "key ` {f \<in> set (map (pass_step E A k) fs). \<not> success f} \<subseteq> key ` {f \<in> set fs. \<not> success f}"
  by (auto simp: pass_step_success)

lemma retry_loop_summary:
  "\<exists>files' w' es. retry_loop E A gid rt a files w = (Inr (), files', w')
      \<and> list_all2 evolves files files'
      \<and> trace w' = trace w @ es
      \<and> set (restored_keys es) \<subseteq> key ` {f \<in> set files. \<not> success f}
      \<and> filter is_job_pending es = []"
proof (induction "nat (max_retries A + 2 - a)" arbitrary: a files w rule: less_induct)
  case less
  show ?case
  proof (cases "a \<le> max_retries A + 1")
    case False
    then have "retry_loop E A gid rt a files w = (Inr (), files, w)"
      by (subst retry_loop.simps) simp
    then show ?thesis
      using list_all2_evolves_refl [of files] by (intro exI [of _ files] exI [of _ w] exI [of _ "[]"]) simp
  next
    case True
    let ?fs1 = "map (pass_step E A a) files"
    from restore_pass_summary [of E A gid rt a files w] obtain w1 es1 where
      p: "restore_pass E A gid rt a files w = (Inr (), ?fs1, w1)"
         "trace w1 = trace w @ es1"
         "restored_keys es1 = map key (filter (\<lambda>f. \<not> success f) files)"
         "filter is_job_pending es1 = []"
      by blast
    have rk1: "set (restored_keys es1) \<subseteq> key ` {f \<in> set files. \<not> success f}"
      using p(3) by auto
    show ?thesis
    proof (cases "a + 1 \<le> max_retries A + 1 \<and> list_all success ?fs1")
      case True
      with \<open>a \<le> max_retries A + 1\<close> p(1)
      have "retry_loop E A gid rt a files w = (Inr (), ?fs1, w1)"
        by (subst retry_loop.simps) simp
      with p(2) p(4) rk1 list_all2_pass_step [of files E A a] show ?thesis
        by (intro exI [of _ ?fs1] exI [of _ w1] exI [of _ es1]) simp
    next
      case False
      define w1' where "w1' = (if a + 1 \<le> max_retries A + 1 then sleep (retry_sleep_secs A) w1 else w1)"
      define es1' where "es1' = (if a + 1 \<le> max_retries A + 1 then es1 @ [Sleep (retry_sleep_secs A)] else es1)"
      have step: "retry_loop E A gid rt a files w = retry_loop E A gid rt (a + 1) ?fs1 w1'"
        using False \<open>a \<le> max_retries A + 1\<close> p(1)
        by (subst retry_loop.simps) (auto simp: w1'_def)
      have tr1: "trace w1' = trace w @ es1'"
        using p(2) by (simp add: w1'_def es1'_def sleep_def)
      have rk1': "restored_keys es1' = restored_keys es1"
        by (simp add: es1'_def)
      have jp1': "filter is_job_pending es1' = []"
        using p(4) by (simp add: es1'_def)
      have "nat (max_retries A + 2 - (a + 1)) < nat (max_retries A + 2 - a)"
        using \<open>a \<le> max_retries A + 1\<close> by simp
      from less.hyps [OF this, of ?fs1 w1'] obtain files' w' es2 where
        IH: "retry_loop E A gid rt (a + 1) ?fs1 w1' = (Inr (), files', w')"
            "list_all2 evolves ?fs1 files'"
            "trace w' = trace w1' @ es2"
            "set (restored_keys es2) \<subseteq> key ` {f \<in> set ?fs1. \<not> success f}"
            "filter is_job_pending es2 = []"
        by blast
      have ev: "list_all2 evolves files files'"
        using list_all2_pass_step [of files E A a] IH(2) by (rule list_all2_evolves_trans)
      have tr: "trace w' = trace w @ (es1' @ es2)"
        using IH(3) tr1 by simp
      have rk: "set (restored_keys (es1' @ es2)) \<subseteq> key ` {f \<in> set files. \<not> success f}"
        using rk1 rk1' IH(4) unsuccessful_keys_pass [of E A a files] by auto
      have jp: "filter is_job_pending (es1' @ es2) = []"
        using jp1' IH(5) by simp
      from step IH(1) ev tr rk jp show ?thesis
        by (intro exI [of _ files'] exI [of _ w'] exI [of _ "es1' @ es2"]) simp
    qed
  qed
qed

lemma report_failures_summary:
  "\<exists>w' es. report_failures E A gid rt files b w = (Inr (b \<or> (\<exists>f\<in>set files. \<not> success f)), w')
      \<and> trace w' = trace w @ es
      \<and> restored_keys es = []
      \<and> filter is_job_pending es = []
      \<and> (\<forall>c ys. pending_passes c (es @ ys) = pending_passes c ys)"
proof (induction files arbitrary: b w)
  case Nil
  show ?case by simp
next
  case (Cons f rest)
  show ?case
  proof (cases "success f")
    case True
    from Cons.IH [of b w] True show ?thesis by simp
  next
    case False
    let ?d = "file_new_data (job_id A) gid (basename (key f)) (Some (key f))
                (Some (dest_bucket f)) (Some ORCA_STATUS_FAILED) (Some (err_msg f)) (Some rt)
                (Some (utcnow E (clock w))) None"
    from post_entry_summary [of E "''orca_recoverfile''" ?d POST "db_queue_url A"
        "max_retries A" "retry_sleep_secs A" "w\<lparr>clock := Suc (clock w)\<rparr>"]
    obtain w1 ds where
      p: "post_entry_to_queue E ''orca_recoverfile'' ?d POST (db_queue_url A) (max_retries A)
            (retry_sleep_secs A) (w\<lparr>clock := Suc (clock w)\<rparr>) = (Inr (), w1)"
         "trace w1 = trace (w\<lparr>clock := Suc (clock w)\<rparr>) @ PostEntry ''orca_recoverfile'' ?d POST # ds"
         "list_all is_delivery ds"
      by blast
    from Cons.IH [of True w1] obtain w2 es2 where
      r: "report_failures E A gid rt rest True w1 = (Inr True, w2)"
         "trace w2 = trace w1 @ es2"
         "restored_keys es2 = []"
         "filter is_job_pending es2 = []"
         "\<forall>c ys. pending_passes c (es2 @ ys) = pending_passes c ys"
      by auto
    let ?es = "PostEntry ''orca_recoverfile'' ?d POST # ds @ es2"
    have res: "report_failures E A gid rt (f # rest) b w = (Inr True, w2)"
      using False p(1) r(1) by (simp add: now_def post_status_for_file_to_queue_def)
    have tr: "trace w2 = trace w @ ?es"
      using p(2) r(2) by simp
    have rk: "restored_keys ?es = []"
      using restored_keys_quiet [OF p(3)] r(3) by simp
    have jp: "filter is_job_pending ?es = []"
      using job_pending_quiet [OF p(3)] r(4) by simp
    have npend: "\<not> is_file_pending ''orca_recoverfile'' ?d"
      by (simp add: is_file_pending_def file_new_data_failed ORCA_STATUS_FAILED_def
          ORCA_STATUS_PENDING_def)
    have pp: "\<forall>c ys. pending_passes c (?es @ ys) = pending_passes c ys"
      using pending_passes_quiet [OF p(3)] r(5) npend by simp
    from res tr rk jp pp False show ?thesis
      by (intro exI [of _ w2] exI [of _ ?es]) simp
  qed
qed

lemma report_failures_all_success:
  "list_all success files \<Longrightarrow> report_failures E A gid rt files b w = (Inr b, w)"
  by (induction files) simp_all

text \<open>The whole of \<^verbatim>\<open>process_granule\<close> on a granule that has an id and a list of files.\<close>

lemma process_granule_summary:
  assumes "granuleId g = Some gid" and "recover_files g = Some files"
  shows "\<exists>files' w' es.
      process_granule E g A w =
        (if \<exists>f\<in>set files'. \<not> success f
         then Inl (RestoreRequestError [Text ''One or more files failed to be requested. '',
                     Interp_granule (g\<lparr>recover_files := Some files'\<rparr>)])
         else Inr (),
         g\<lparr>recover_files := Some files'\<rparr>, w')
      \<and> list_all2 evolves files files'
      \<and> trace w' = trace w @ es
      \<and> set (restored_keys es) \<subseteq> key ` {f \<in> set files. \<not> success f}"
proof -
  let ?rt = "utcnow E (clock w)"
  let ?w0 = "w\<lparr>clock := Suc (clock w)\<rparr>"
  let ?d = "job_new_data (job_id A) gid (Some ORCA_STATUS_PENDING) (Some ?rt) None
              (Some (glacier_bucket A))"
  from post_entry_summary [of E "''orca_recoveryjob''" ?d POST "db_queue_url A"
      "max_retries A" "retry_sleep_secs A" ?w0]
  obtain w1 ds where
    p: "post_entry_to_queue E ''orca_recoveryjob'' ?d POST (db_queue_url A) (max_retries A)
          (retry_sleep_secs A) ?w0 = (Inr (), w1)"
       "trace w1 = trace ?w0 @ PostEntry ''orca_recoveryjob'' ?d POST # ds"
       "list_all is_delivery ds"
    by blast
  from retry_loop_summary [of E A gid ?rt 1 files w1] obtain files' w2 es2 where
    l: "retry_loop E A gid ?rt 1 files w1 = (Inr (), files', w2)"
       "list_all2 evolves files files'"
       "trace w2 = trace w1 @ es2"
       "set (restored_keys es2) \<subseteq> key ` {f \<in> set files. \<not> success f}"
    by blast
  from report_failures_summary [of E A gid ?rt files' False w2] obtain w3 es3 where
    r: "report_failures E A gid ?rt files' False w2 = (Inr (\<exists>f\<in>set files'. \<not> success f), w3)"
       "trace w3 = trace w2 @ es3"
       "restored_keys es3 = []"
    by auto
  let ?es = "PostEntry ''orca_recoveryjob'' ?d POST # ds @ es2 @ es3"
  have res: "process_granule E g A w =
        (if \<exists>f\<in>set files'. \<not> success f
         then Inl (RestoreRequestError [Text ''One or more files failed to be requested. '',
                     Interp_granule (g\<lparr>recover_files := Some files'\<rparr>)])
         else Inr (),
         g\<lparr>recover_files := Some files'\<rparr>, w3)"
    using assms p(1) l(1) r(1)
    by (simp add: process_granule_def now_def post_status_for_job_to_queue_def Let_def)
  have tr: "trace w3 = trace w @ ?es"
    using p(2) l(3) r(2) by simp
  have rk: "set (restored_keys ?es) \<subseteq> key ` {f \<in> set files. \<not> success f}"
    using restored_keys_quiet [OF p(3)] l(4) r(3) by simp
  from res l(2) tr rk show ?thesis
    by (intro exI [of _ files'] exI [of _ w3] exI [of _ ?es]) simp
qed

text \<open>Unfolding a run on a concrete input.\<close>

lemmas run_defs =
  process_granule_def retry_loop.simps now_def post_status_for_job_to_queue_def
  post_status_for_file_to_queue_def post_entry_to_queue_def try_send_def sqs_send_message_def
  emit_def sleep_def restore_file_def restore_object_def except_ClientError_def Let_def
  job_new_data_def file_new_data_def set_if_not_None_def upto.simps

lemmas example_defs =
  example_granule_def example_file_def example_args_def env_queue_up_def env_queue_down_def
  w_init_def example_head_def example_restore_def

lemma keys_loop_summary:
  assumes "keys_loop E bucket ks files w = (r, w')"
  shows "(\<exists>hs. trace w' = trace w @ hs \<and> set hs \<subseteq> (\<lambda>k. HeadObject bucket (fk_key k)) ` set ks)
       \<and> (case r of
             Inr files' \<Rightarrow>
               files' = files @ map new_file (filter (\<lambda>k. head_object E bucket (fk_key k) = None) ks)
               \<and> (\<forall>k\<in>set ks. \<forall>code msg. head_object E bucket (fk_key k) = Some (code, msg)
                     \<longrightarrow> code = ''NoSuchKey'' \<or> code = ''NotFound'')
           | Inl e \<Rightarrow>
               \<exists>k\<in>set ks. \<exists>code msg. head_object E bucket (fk_key k) = Some (code, msg)
                  \<and> code \<noteq> ''NoSuchKey'' \<and> code \<noteq> ''NotFound'' \<and> e = ClientError code msg)"
  using assms
proof (induction ks arbitrary: files w)
  case Nil
  then show ?case by auto
next
  case (Cons k rest)
  let ?w1 = "emit (HeadObject bucket (fk_key k)) w"
  show ?case
  proof (cases "head_object E bucket (fk_key k)")
    case None
    with Cons.prems have "keys_loop E bucket rest (files @ [new_file k]) ?w1 = (r, w')"
      by (simp add: object_exists_def new_file_def Let_def)
    from Cons.IH [OF this] None show ?thesis
      by (auto split: sum.splits)
  next
    case (Some cm)
    obtain code msg where cm: "cm = (code, msg)" by (cases cm)
    show ?thesis
    proof (cases "code = ''NoSuchKey'' \<or> code = ''NotFound''")
      case True
      with Cons.prems Some cm have "keys_loop E bucket rest files ?w1 = (r, w')"
        by (auto simp: object_exists_def Let_def)
      from Cons.IH [OF this] Some cm True show ?thesis
        by (auto split: sum.splits)
    next
      case False
      with Cons.prems Some cm have "r = Inl (ClientError code msg)" "w' = ?w1"
        by (auto simp: object_exists_def Let_def)
      with Some cm False show ?thesis by auto
    qed
  qed
qed

lemma list_all2_evolves_nth:
  assumes "list_all2 evolves fs fs'"
  shows "length fs' = length fs
       \<and> (\<forall>i<length fs. success (fs ! i) \<longrightarrow> fs' ! i = fs ! i)
       \<and> (\<forall>i<length fs. \<not> success (fs ! i) \<and> success (fs' ! i) \<longrightarrow> err_msg (fs' ! i) = '''')
       \<and> map key fs' = map key fs"
proof -
  from assms have len: "length fs = length fs'" and nth: "\<forall>i<length fs. evolves (fs ! i) (fs' ! i)"
    by (simp_all add: list_all2_conv_all_nth)
  from nth have "\<forall>i<length fs. key (fs' ! i) = key (fs ! i)"
    by (simp add: evolves_def)
  with len have "map key fs' = map key fs"
    by (simp add: list_eq_iff_nth_eq)
  with len nth show ?thesis
    by (simp add: evolves_def)
qed

lemma distinct_keys_successful_not_restored:
  assumes "distinct (map key fs)" and "i < length fs" and "success (fs ! i)"
  shows "key (fs ! i) \<notin> key ` {f \<in> set fs. \<not> success f}"
proof
  assume "key (fs ! i) \<in> key ` {f \<in> set fs. \<not> success f}"
  then obtain f where f: "f \<in> set fs" "\<not> success f" "key f = key (fs ! i)" by auto
  then obtain j where j: "j < length fs" "fs ! j = f" by (auto simp: in_set_conv_nth)
  with f(3) assms(2) have "map key fs ! j = map key fs ! i" by simp
  moreover have "i < length (map key fs)" "j < length (map key fs)"
    using assms(2) j(1) by simp_all
  ultimately have "j = i"
    using assms(1) nth_eq_iff_index_eq [of "map key fs" j i] by blast
  with j(2) f(2) assms(3) show False by simp
qed

text \<open>\<^verbatim>\<open>process_granule\<close> on any granule, also one without an id or without files.\<close>

lemma process_granule_any:
  assumes "process_granule E g A w = (res, g', w')"
  shows "\<exists>es. trace w' = trace w @ es
       \<and> (res = Inr () \<or> res = Inl (KeyError ''granuleId'') \<or> res = Inl (KeyError ''recover_files'')
          \<or> res = Inl (RestoreRequestError
                 [Text ''One or more files failed to be requested. '', Interp_granule g']))
       \<and> (case recover_files g of
             None \<Rightarrow> restored_keys es = [] \<and> g' = g
           | Some fs \<Rightarrow> set (restored_keys es) \<subseteq> key ` set fs
               \<and> (\<exists>fs'. recover_files g' = Some fs' \<and> map key fs' = map key fs))"
proof (cases "granuleId g")
  case None
  with assms have "res = Inl (KeyError ''granuleId'')" "g' = g" "trace w' = trace w"
    by (auto simp: process_granule_def now_def)
  then show ?thesis
    by (intro exI [of _ "[]"]) (simp split: option.splits)
next
  case (Some gid)
  show ?thesis
  proof (cases "recover_files g")
    case None
    let ?d = "job_new_data (job_id A) gid (Some ORCA_STATUS_PENDING) (Some (utcnow E (clock w)))
                None (Some (glacier_bucket A))"
    from post_entry_summary [of E "''orca_recoveryjob''" ?d POST "db_queue_url A"
        "max_retries A" "retry_sleep_secs A" "w\<lparr>clock := Suc (clock w)\<rparr>"]
    obtain w1 ds where
      p: "post_entry_to_queue E ''orca_recoveryjob'' ?d POST (db_queue_url A) (max_retries A)
            (retry_sleep_secs A) (w\<lparr>clock := Suc (clock w)\<rparr>) = (Inr (), w1)"
         "trace w1 = trace (w\<lparr>clock := Suc (clock w)\<rparr>) @ PostEntry ''orca_recoveryjob'' ?d POST # ds"
         "list_all is_delivery ds"
      by blast
    from assms Some None p(1) have r: "res = Inl (KeyError ''recover_files'')" "g' = g" "w' = w1"
      by (auto simp: process_granule_def now_def post_status_for_job_to_queue_def)
    from p(2) r(3) have "trace w' = trace w @ (PostEntry ''orca_recoveryjob'' ?d POST # ds)"
      by simp
    moreover have "restored_keys (PostEntry ''orca_recoveryjob'' ?d POST # ds) = []"
      using restored_keys_quiet [OF p(3)] by simp
    ultimately show ?thesis
      using r(1,2) None by (intro exI [of _ "PostEntry ''orca_recoveryjob'' ?d POST # ds"]) simp
  next
    case (Some files)
    from process_granule_summary [OF \<open>granuleId g = Some gid\<close> Some, of E A w] assms
    obtain files' es where
      s: "res = (if \<exists>f\<in>set files'. \<not> success f
                then Inl (RestoreRequestError [Text ''One or more files failed to be requested. '',
                     Interp_granule (g\<lparr>recover_files := Some files'\<rparr>)])
                else Inr ())"
         "g' = g\<lparr>recover_files := Some files'\<rparr>"
         "list_all2 evolves files files'"
         "trace w' = trace w @ es"
         "set (restored_keys es) \<subseteq> key ` {f \<in> set files. \<not> success f}"
      by auto
    from list_all2_evolves_nth [OF s(3)] have keys: "map key files' = map key files"
      by simp
    from s(5) have sub: "set (restored_keys es) \<subseteq> key ` set files"
      by auto
    from s(1) s(2) have "res = Inr () \<or> res = Inl (RestoreRequestError
                 [Text ''One or more files failed to be requested. '', Interp_granule g'])"
      by (simp split: if_splits)
    with s(2,4) keys sub Some show ?thesis
      by (intro exI [of _ es]) auto
  qed
qed

lemma inner_task_summary:
  assumes "config_glacier_bucket ev = Some bucket"
    and "inner_task E ev mr secs tier days url w = (res, w')"
  shows "\<exists>es. trace w' = trace w @ es
       \<and> (\<forall>k\<in>set (restored_keys es). head_object E bucket k = None)
       \<and> (\<forall>g\<in>set (result_granules res). \<forall>fs. recover_files g = Some fs
             \<longrightarrow> (\<forall>f\<in>set fs. head_object E bucket (key f) = None))
       \<and> (\<forall>g ks. input_granules ev = [g] \<and> keys g = Some ks
             \<and> (\<exists>k\<in>set ks. \<exists>code msg. head_object E bucket (fk_key k) = Some (code, msg)
                   \<and> code \<noteq> ''NoSuchKey'' \<and> code \<noteq> ''NotFound'')
             \<longrightarrow> (\<exists>code msg. res = Inl (ClientError code msg)
                    \<and> code \<noteq> ''NoSuchKey'' \<and> code \<noteq> ''NotFound''
                    \<and> (\<exists>k\<in>set ks. head_object E bucket (fk_key k) = Some (code, msg)))
                 \<and> restored_keys es = []
                 \<and> set es \<subseteq> (\<lambda>k. HeadObject bucket (fk_key k)) ` set ks)"
proof -
  let ?A = "\<lambda>jid. \<lparr>glacier_bucket = bucket, restore_expire_days = days, max_retries = mr,
               retry_sleep_secs = secs, retrieval_type = tier, job_id = jid,
               db_queue_url = url\<rparr>"
  consider (many) "length (input_granules ev) > 1"
    | (none) "input_granules ev = []"
    | (one) g where "input_granules ev = [g]"
    by (cases "input_granules ev"; cases "tl (input_granules ev)") auto
  then show ?thesis
  proof cases
    case many
    with assms have "w' = w" "result_granules res = []"
      by (auto simp: inner_task_def result_granules_def)
    with many show ?thesis
      by (intro exI [of _ "[]"]) auto
  next
    case none
    show ?thesis
    proof (cases "input_job_id ev")
      case None
      with assms none have "w' = w" "result_granules res = []"
        by (auto simp: inner_task_def result_granules_def)
      with none show ?thesis
        by (intro exI [of _ "[]"]) auto
    next
      case (Some jid)
      with assms none have "trace w' = trace w" "result_granules res = []"
        by (auto simp: inner_task_def result_granules_def process_granule_def now_def
            empty_granule_def)
      with none show ?thesis
        by (intro exI [of _ "[]"]) auto
    qed
  next
    case one
    show ?thesis
    proof (cases "keys g")
      case None
      with assms one have "w' = w" "result_granules res = []"
        by (auto simp: inner_task_def result_granules_def)
      with one None show ?thesis
        by (intro exI [of _ "[]"]) auto
    next
      case (Some ks)
      obtain r w1 where kl: "keys_loop E bucket ks [] w = (r, w1)"
        by (cases "keys_loop E bucket ks [] w")
      from keys_loop_summary [OF kl] obtain hs where
        hs: "trace w1 = trace w @ hs" "set hs \<subseteq> (\<lambda>k. HeadObject bucket (fk_key k)) ` set ks"
        by blast
      from hs(2) have rkh: "restored_keys hs = []"
        by (induction hs) auto
      show ?thesis
      proof (cases r)
        case (Inl e)
        with assms one Some kl have res: "res = Inl e" "w' = w1"
          by (auto simp: inner_task_def)
        from keys_loop_summary [OF kl] Inl obtain k code msg where
          e: "k \<in> set ks" "head_object E bucket (fk_key k) = Some (code, msg)"
             "code \<noteq> ''NoSuchKey''" "code \<noteq> ''NotFound''" "e = ClientError code msg"
          by auto
        from res e(5) have rg: "result_granules res = []"
          by (simp add: result_granules_def)
        from res hs rkh rg e one Some show ?thesis
          by (intro exI [of _ hs]) auto
      next
        case (Inr files)
        from keys_loop_summary [OF kl] Inr have
          files: "files = map new_file (filter (\<lambda>k. head_object E bucket (fk_key k) = None) ks)"
          and nf: "\<forall>k\<in>set ks. \<forall>code msg. head_object E bucket (fk_key k) = Some (code, msg)
                     \<longrightarrow> code = ''NoSuchKey'' \<or> code = ''NotFound''"
          by auto
        from files have found: "\<forall>f\<in>set files. head_object E bucket (key f) = None"
          by (auto simp: new_file_def)
        let ?g = "g\<lparr>recover_files := Some files\<rparr>"
        show ?thesis
        proof (cases "input_job_id ev")
          case None
          with assms one Some kl Inr have "w' = w1" "result_granules res = []"
            by (auto simp: inner_task_def result_granules_def)
          with hs rkh nf one Some show ?thesis
            by (intro exI [of _ hs]) auto
        next
          case (Some jid)
          obtain pr g' w2 where pg: "process_granule E ?g (?A jid) w1 = (pr, g', w2)"
            by (cases "process_granule E ?g (?A jid) w1")
          from assms one \<open>keys g = Some ks\<close> kl Inr Some pg
          have res: "res = (case pr of Inl err \<Rightarrow> Inl err
                            | Inr u \<Rightarrow> Inr \<lparr>out_granules = [g'], out_job_id = jid\<rparr>)"
            and w': "w' = w2"
            by (auto simp: inner_task_def split: sum.splits)
          from process_granule_any [OF pg] obtain es2 fs' where
            a: "trace w2 = trace w1 @ es2"
               "pr = Inr () \<or> pr = Inl (KeyError ''granuleId'')
                \<or> pr = Inl (KeyError ''recover_files'')
                \<or> pr = Inl (RestoreRequestError
                     [Text ''One or more files failed to be requested. '', Interp_granule g'])"
               "set (restored_keys es2) \<subseteq> key ` set files"
               "recover_files g' = Some fs'" "map key fs' = map key files"
            by auto
          from a(5) have "key ` set fs' = key ` set files"
            by (metis set_map)
          have found': "\<forall>f\<in>set fs'. head_object E bucket (key f) = None"
          proof
            fix f assume "f \<in> set fs'"
            then have "key f \<in> key ` set fs'" by (rule imageI)
            with \<open>key ` set fs' = key ` set files\<close> obtain f0 where
              "f0 \<in> set files" "key f = key f0" by auto
            with found show "head_object E bucket (key f) = None" by simp
          qed
          from res a(2) have rg: "set (result_granules res) \<subseteq> {g'}"
            by (auto simp: result_granules_def)
          have tr: "trace w' = trace w @ (hs @ es2)"
            using w' a(1) hs(1) by simp
          have rk: "\<forall>k\<in>set (restored_keys (hs @ es2)). head_object E bucket k = None"
            using rkh a(3) found by auto
          have gr: "\<forall>g\<in>set (result_granules res). \<forall>fs. recover_files g = Some fs
             \<longrightarrow> (\<forall>f\<in>set fs. head_object E bucket (key f) = None)"
            using rg a(4) found' by auto
          from tr rk gr nf one \<open>keys g = Some ks\<close> show ?thesis
            by (intro exI [of _ "hs @ es2"]) auto
        qed
      qed
    qed
  qed
qed

text \<open>The serialiser of the examples is injective.\<close>

lemma enc_nat_inj: "enc_nat n @ r = enc_nat m @ r' \<Longrightarrow> n = m \<and> r = r'"
proof (induction n arbitrary: m)
  case 0
  then show ?case by (cases m) (simp_all add: enc_nat_def)
next
  case (Suc n)
  then show ?case by (cases m) (simp_all add: enc_nat_def)
qed

lemma enc_str_inj: "enc_str s @ r = enc_str s' @ r' \<Longrightarrow> s = s' \<and> r = r'"
proof -
  assume "enc_str s @ r = enc_str s' @ r'"
  then have "enc_nat (length s) @ (s @ r) = enc_nat (length s') @ (s' @ r')"
    by (simp add: enc_str_def)
  from enc_nat_inj [OF this] show ?thesis
    using append_eq_append_conv [of s s' r r'] by blast
qed

lemma enc_json_inj: "enc_json x @ r = enc_json y @ r' \<Longrightarrow> x = y \<and> r = r'"
proof (cases x; cases y)
  fix s s'
  assume "x = JStr s" "y = JStr s'" "enc_json x @ r = enc_json y @ r'"
  then show ?thesis using enc_str_inj [of s r s' r'] by simp
next
  fix i j
  assume "x = JInt i" "y = JInt j" "enc_json x @ r = enc_json y @ r'"
  then have sgn: "(i < 0) = (j < 0)"
    and "enc_nat (nat \<bar>i\<bar>) @ r = enc_nat (nat \<bar>j\<bar>) @ r'"
    by (simp_all split: if_splits)
  from enc_nat_inj [OF this(2)] sgn \<open>x = JInt i\<close> \<open>y = JInt j\<close> show ?thesis by auto
qed (simp_all split: if_splits)

lemma enc_entry_inj: "enc_entry x @ r = enc_entry y @ r' \<Longrightarrow> x = y \<and> r = r'"
proof -
  assume "enc_entry x @ r = enc_entry y @ r'"
  then have "enc_str (fst x) @ (enc_json (snd x) @ r) = enc_str (fst y) @ (enc_json (snd y) @ r')"
    by (simp add: enc_entry_def)
  from enc_str_inj [OF this] have "fst x = fst y" "enc_json (snd x) @ r = enc_json (snd y) @ r'"
    by simp_all
  with enc_json_inj [of "snd x" r "snd y" r'] show ?thesis
    by (simp add: prod_eq_iff)
qed

lemma enc_entry_not_Nil: "enc_entry x \<noteq> []"
  by (simp add: enc_entry_def enc_str_def enc_nat_def)

lemma example_dumps_inj: "inj example_dumps"
proof (rule injI)
  fix d d' :: pydict
  show "example_dumps d = example_dumps d' \<Longrightarrow> d = d'"
  proof (induction d arbitrary: d')
    case Nil
    then show ?case
      by (cases d') (simp_all add: example_dumps_def enc_entry_not_Nil)
  next
    case (Cons x xs)
    show ?case
    proof (cases d')
      case Nil
      with Cons.prems show ?thesis
        by (simp add: example_dumps_def enc_entry_not_Nil)
    next
      case (Cons y ys)
      with Cons.prems have "enc_entry x @ example_dumps xs = enc_entry y @ example_dumps ys"
        by (simp add: example_dumps_def)
      from enc_entry_inj [OF this] Cons.IH [of ys] Cons show ?thesis by simp
    qed
  qed
qed

lemma dedup_ids_append [simp]: "dedup_ids (xs @ ys) = dedup_ids xs @ dedup_ids ys"
  by (induction xs rule: dedup_ids.induct) (simp_all split: option.splits)

lemma dedup_ids_delivery:
  "list_all (delivery (bare_message url) (full_message t rm url body) secs) es \<Longrightarrow>
     set (dedup_ids es) \<subseteq> {t @ RequestMethod_value rm @ body}"
proof (induction es rule: dedup_ids.induct)
  case (2 m ok es)
  then show ?case
    by (auto simp: delivery_def bare_message_def full_message_def)
qed (simp_all add: delivery_def)

lemma delivery_messages:
  "list_all (delivery bare full secs) es \<Longrightarrow> SendMessage m ok \<in> set es \<Longrightarrow> m = bare \<or> m = full"
  by (auto simp: list_all_iff delivery_def)

lemma post_entry_dedup:
  assumes "post_entry_to_queue E t d rm url mr secs w = (r, w')"
  shows "\<exists>es. trace w' = trace w @ es
       \<and> set (dedup_ids es) \<subseteq> {t @ RequestMethod_value rm @ json_dumps_indent4 E d}
       \<and> (\<forall>m ok. SendMessage m ok \<in> set es \<longrightarrow>
             (case MessageBody m of
                None \<Rightarrow> MessageDeduplicationId m = None
              | Some b \<Rightarrow> b = json_dumps_indent4 E d
                  \<and> MessageDeduplicationId m = Some (t @ RequestMethod_value rm @ b)))"
proof -
  let ?body = "json_dumps_indent4 E d"
  from post_entry_to_queue_returns [of E t d rm url mr secs w] assms obtain es where
    h: "trace w' = trace w @ PostEntry t d rm # es"
       "list_all (delivery (bare_message url) (full_message t rm url ?body) secs) es"
    by auto
  have ids: "set (dedup_ids (PostEntry t d rm # es)) \<subseteq> {t @ RequestMethod_value rm @ ?body}"
    using dedup_ids_delivery [OF h(2)] by simp
  have msgs: "\<forall>m ok. SendMessage m ok \<in> set (PostEntry t d rm # es) \<longrightarrow>
             (case MessageBody m of
                None \<Rightarrow> MessageDeduplicationId m = None
              | Some b \<Rightarrow> b = ?body
                  \<and> MessageDeduplicationId m = Some (t @ RequestMethod_value rm @ b))"
  proof (intro allI impI)
    fix m ok
    assume "SendMessage m ok \<in> set (PostEntry t d rm # es)"
    then have "SendMessage m ok \<in> set es" by simp
    from delivery_messages [OF h(2) this]
    show "case MessageBody m of
                None \<Rightarrow> MessageDeduplicationId m = None
              | Some b \<Rightarrow> b = ?body
                  \<and> MessageDeduplicationId m = Some (t @ RequestMethod_value rm @ b)"
      by (auto simp: bare_message_def full_message_def)
  qed
  from h(1) ids msgs show ?thesis
    by (intro exI [of _ "PostEntry t d rm # es"] conjI)
qed

text \<open>The first accepted attempt, unfolded by one pass.\<close>

lemma first_ok_from_rec:
  "a \<le> max_retries A + 1 \<Longrightarrow>
     first_ok_from E A a k = (if attempt_ok E A k a then Some a else first_ok_from E A (a + 1) k)"
  by (simp add: first_ok_from_def upto_rec1 [of a "max_retries A + 1"])

lemma first_ok_from_none: "\<not> a \<le> max_retries A + 1 \<Longrightarrow> first_ok_from E A a k = None"
  by (simp add: first_ok_from_def)

lemma pending_passes_append:
  "\<exists>c'. \<forall>ys. pending_passes c (es @ ys) = pending_passes c es @ pending_passes c' ys"
proof (induction c es rule: pending_passes.induct)
  case (1 c)
  show ?case by (intro exI [of _ c]) simp
qed simp_all

lemma mset_map_filter_split:
  "mset (map h (filter P xs)) =
     mset (map h (filter (\<lambda>x. P x \<and> Q x) xs)) + mset (map h (filter (\<lambda>x. P x \<and> \<not> Q x) xs))"
  by (induction xs) auto

lemma filter_unsuccessful_pass:
  "filter (\<lambda>f. \<not> success f) (map (pass_step E A a) files) =
     map (pass_step E A a) (filter (\<lambda>f. \<not> success f \<and> \<not> attempt_ok E A (key f) a) files)"
  by (induction files) (auto simp: pass_step_success)

text \<open>The retry loop when every file that has not succeeded will be accepted in a pass to come.\<close>

lemma retry_loop_success:
  assumes "\<forall>f\<in>set files. \<not> success f \<longrightarrow> first_ok_from E A a (key f) \<noteq> None"
  shows "\<exists>files' w' es. retry_loop E A gid rt a files w = (Inr (), files', w')
      \<and> list_all success files'
      \<and> trace w' = trace w @ es
      \<and> filter is_job_pending es = []
      \<and> (\<forall>c. mset (map (\<lambda>(k, p). (k, Some p)) (pending_passes c es)) =
               mset (map (\<lambda>f. (Some (JStr (key f)), first_ok_from E A a (key f)))
                      (filter (\<lambda>f. \<not> success f) files)))"
  using assms
proof (induction "nat (max_retries A + 2 - a)" arbitrary: a files w rule: less_induct)
  case less
  note inv = less.prems
  show ?case
  proof (cases "a \<le> max_retries A + 1")
    case False
    then have run: "retry_loop E A gid rt a files w = (Inr (), files, w)"
      by (subst retry_loop.simps) simp
    from inv False have all: "\<forall>f\<in>set files. success f"
      by (auto simp: first_ok_from_none)
    then have "filter (\<lambda>f. \<not> success f) files = []"
      by (simp add: filter_empty_conv)
    with run all show ?thesis
      by (intro exI [of _ files] exI [of _ w] exI [of _ "[]"]) (simp add: list_all_iff)
  next
    case True
    let ?fs1 = "map (pass_step E A a) files"
    let ?X1 = "map (\<lambda>f. (Some (JStr (key f)), a))
                 (filter (\<lambda>f. \<not> success f \<and> attempt_ok E A (key f) a) files)"
    from restore_pass_summary [of E A gid rt a files w] obtain w1 es1 where
      p: "restore_pass E A gid rt a files w = (Inr (), ?fs1, w1)"
         "trace w1 = trace w @ es1"
         "filter is_job_pending es1 = []"
         "\<forall>c ys. pending_passes c (es1 @ ys) =
            ?X1 @ pending_passes (if list_all success files then c else a) ys"
      by blast
    have pp1: "pending_passes c es1 = ?X1" for c
      using p(4) [rule_format, of c "[]"] by simp
    have now_ok: "map (\<lambda>(k, p). (k, Some p)) ?X1 =
        map (\<lambda>f. (Some (JStr (key f)), first_ok_from E A a (key f)))
          (filter (\<lambda>f. \<not> success f \<and> attempt_ok E A (key f) a) files)"
      using True by (simp add: first_ok_from_rec)
    have later: "map (\<lambda>f. (Some (JStr (key f)), first_ok_from E A (a + 1) (key f)))
          (filter (\<lambda>f. \<not> success f \<and> \<not> attempt_ok E A (key f) a) files) =
        map (\<lambda>f. (Some (JStr (key f)), first_ok_from E A a (key f)))
          (filter (\<lambda>f. \<not> success f \<and> \<not> attempt_ok E A (key f) a) files)"
      using True by (simp add: first_ok_from_rec)
    show ?thesis
    proof (cases "list_all success ?fs1")
      case all1: True
      have run: "retry_loop E A gid rt a files w = (Inr (), ?fs1, w1)"
      proof (cases "a + 1 \<le> max_retries A + 1")
        case True
        with \<open>a \<le> max_retries A + 1\<close> p(1) all1 show ?thesis
          by (subst retry_loop.simps) simp
      next
        case False
        then have "retry_loop E A gid rt (a + 1) ?fs1 w1 = (Inr (), ?fs1, w1)"
          by (subst retry_loop.simps) simp
        with False \<open>a \<le> max_retries A + 1\<close> p(1) show ?thesis
          by (subst retry_loop.simps) simp
      qed
      from all1 have "\<forall>f\<in>set files. \<not> success f \<longrightarrow> attempt_ok E A (key f) a"
        by (auto simp: list_all_iff pass_step_success)
      then have "filter (\<lambda>f. \<not> success f \<and> attempt_ok E A (key f) a) files =
          filter (\<lambda>f. \<not> success f) files"
        by (intro filter_cong) auto
      note eqf = this
      have l1: "map (\<lambda>(k, p). (k, Some p)) (pending_passes c es1) =
          map (\<lambda>f. (Some (JStr (key f)), first_ok_from E A a (key f)))
            (filter (\<lambda>f. \<not> success f) files)" for c
      proof -
        have "map (\<lambda>(k, p). (k, Some p)) (pending_passes c es1) = map (\<lambda>(k, p). (k, Some p)) ?X1"
          by (simp only: pp1)
        also have "\<dots> = map (\<lambda>f. (Some (JStr (key f)), first_ok_from E A a (key f)))
            (filter (\<lambda>f. \<not> success f \<and> attempt_ok E A (key f) a) files)"
          by (rule now_ok)
        also have "\<dots> = map (\<lambda>f. (Some (JStr (key f)), first_ok_from E A a (key f)))
            (filter (\<lambda>f. \<not> success f) files)"
          by (simp only: eqf)
        finally show ?thesis .
      qed
      have "\<forall>c. mset (map (\<lambda>(k, p). (k, Some p)) (pending_passes c es1)) =
               mset (map (\<lambda>f. (Some (JStr (key f)), first_ok_from E A a (key f)))
                      (filter (\<lambda>f. \<not> success f) files))"
        by (simp only: l1) simp
      with run all1 p(2,3) show ?thesis
        by (intro exI [of _ ?fs1] exI [of _ w1] exI [of _ es1]) simp
    next
      case not1: False
      then obtain f0 where f0: "f0 \<in> set files" "\<not> success f0" "\<not> attempt_ok E A (key f0) a"
        by (auto simp: list_all_iff pass_step_success)
      with inv True have "first_ok_from E A (a + 1) (key f0) \<noteq> None"
        by (auto simp: first_ok_from_rec)
      then have more: "a + 1 \<le> max_retries A + 1"
        by (rule contrapos_np) (simp add: first_ok_from_none)
      let ?w1' = "sleep (retry_sleep_secs A) w1"
      have step: "retry_loop E A gid rt a files w = retry_loop E A gid rt (a + 1) ?fs1 ?w1'"
        using not1 more \<open>a \<le> max_retries A + 1\<close> p(1)
        by (subst retry_loop.simps) simp
      have inv1: "\<forall>f\<in>set ?fs1. \<not> success f \<longrightarrow> first_ok_from E A (a + 1) (key f) \<noteq> None"
      proof (intro ballI impI)
        fix f1 assume "f1 \<in> set ?fs1" "\<not> success f1"
        then obtain f where f: "f \<in> set files" "f1 = pass_step E A a f" by auto
        with \<open>\<not> success f1\<close> have "\<not> success f" "\<not> attempt_ok E A (key f) a"
          by (simp_all add: pass_step_success)
        with inv f(1) True have "first_ok_from E A (a + 1) (key f) \<noteq> None"
          by (auto simp: first_ok_from_rec)
        with f(2) show "first_ok_from E A (a + 1) (key f1) \<noteq> None" by simp
      qed
      have "nat (max_retries A + 2 - (a + 1)) < nat (max_retries A + 2 - a)"
        using \<open>a \<le> max_retries A + 1\<close> by simp
      from less.hyps [OF this inv1, of ?w1'] obtain files' w' es2 where
        IH: "retry_loop E A gid rt (a + 1) ?fs1 ?w1' = (Inr (), files', w')"
            "list_all success files'"
            "trace w' = trace ?w1' @ es2"
            "filter is_job_pending es2 = []"
            "\<forall>c. mset (map (\<lambda>(k, p). (k, Some p)) (pending_passes c es2)) =
               mset (map (\<lambda>f. (Some (JStr (key f)), first_ok_from E A (a + 1) (key f)))
                      (filter (\<lambda>f. \<not> success f) ?fs1))"
        by blast
      let ?es = "es1 @ Sleep (retry_sleep_secs A) # es2"
      have tr: "trace w' = trace w @ ?es"
        using IH(3) p(2) by (simp add: sleep_def)
      have jp: "filter is_job_pending ?es = []"
        using p(3) IH(4) by simp
      have rest: "map (\<lambda>f. (Some (JStr (key f)), first_ok_from E A (a + 1) (key f)))
                      (filter (\<lambda>f. \<not> success f) ?fs1) =
          map (\<lambda>f. (Some (JStr (key f)), first_ok_from E A a (key f)))
            (filter (\<lambda>f. \<not> success f \<and> \<not> attempt_ok E A (key f) a) files)"
        using later by (simp add: filter_unsuccessful_pass comp_def)
      have pp: "\<forall>c. mset (map (\<lambda>(k, p). (k, Some p)) (pending_passes c ?es)) =
               mset (map (\<lambda>f. (Some (JStr (key f)), first_ok_from E A a (key f)))
                      (filter (\<lambda>f. \<not> success f) files))"
      proof
        fix c
        have "pending_passes c ?es =
            ?X1 @ pending_passes (if list_all success files then c else a) es2"
          using p(4) [rule_format, of c "Sleep (retry_sleep_secs A) # es2"] by simp
        then have "mset (map (\<lambda>(k, p). (k, Some p)) (pending_passes c ?es)) =
            mset (map (\<lambda>(k, p). (k, Some p)) ?X1)
            + mset (map (\<lambda>(k, p). (k, Some p))
                (pending_passes (if list_all success files then c else a) es2))"
          by simp
        also have "\<dots> = mset (map (\<lambda>f. (Some (JStr (key f)), first_ok_from E A a (key f)))
              (filter (\<lambda>f. \<not> success f \<and> attempt_ok E A (key f) a) files))
            + mset (map (\<lambda>f. (Some (JStr (key f)), first_ok_from E A a (key f)))
              (filter (\<lambda>f. \<not> success f \<and> \<not> attempt_ok E A (key f) a) files))"
          by (simp only: now_ok IH(5) [rule_format] rest)
        also have "\<dots> = mset (map (\<lambda>f. (Some (JStr (key f)), first_ok_from E A a (key f)))
                      (filter (\<lambda>f. \<not> success f) files))"
          by (rule mset_map_filter_split [symmetric])
        finally show "mset (map (\<lambda>(k, p). (k, Some p)) (pending_passes c ?es)) =
               mset (map (\<lambda>f. (Some (JStr (key f)), first_ok_from E A a (key f)))
                      (filter (\<lambda>f. \<not> success f) files))" .
      qed
      from step IH(1,2) tr jp pp show ?thesis
        by (intro exI [of _ files'] exI [of _ w'] exI [of _ ?es]) simp
    qed
  qed
qed

section \<open>The claims\<close>

text \<open>
  C1 (the code departs from the claim). The claim: when every delivery attempt of
  \<^verbatim>\<open>post_entry_to_queue\<close> fails, the call re-raises the transport error. The code: with
  \<^verbatim>\<open>max_retries = 2\<close> and a queue that refuses every message, two attempts are made, each
  followed by a sleep, and the call returns normally. The test
  \<^verbatim>\<open>attempt == max_retries + 1\<close> that guards the \<^verbatim>\<open>raise\<close> is never true for an
  \<^verbatim>\<open>attempt\<close> of \<^verbatim>\<open>range(1, max_retries + 1)\<close>.
\<close>

theorem publisher_returns_after_failed_retries:
  "post_entry_to_queue env_queue_down ''orca_recoverfile'' [(''job_id'', JStr ''j1'')] POST
     ''url'' 2 0 w_init =
     (Inr (),
      \<lparr>trace = [PostEntry ''orca_recoverfile'' [(''job_id'', JStr ''j1'')] POST,
                SendMessage (bare_message ''url'') False, Sleep 0,
                SendMessage (bare_message ''url'') False, Sleep 0],
       clock = 0, sqs_calls = 2\<rparr>)"
  by code_simp

text \<open>
  C7 (the code departs from the claim). The claim: the status codes of request\_files.py
  are those of the shared enumeration \<^verbatim>\<open>OrcaStatus\<close>. The code: the two agree on
  \<^verbatim>\<open>PENDING\<close>, but \<^verbatim>\<open>ORCA_STATUS_FAILED\<close> is 4, which the shared enumeration gives to
  \<^verbatim>\<open>SUCCESS\<close>; its \<^verbatim>\<open>FAILED\<close> is 3.
\<close>

theorem status_codes_disagree:
  "ORCA_STATUS_FAILED \<noteq> OrcaStatus_value FAILED
   \<and> ORCA_STATUS_FAILED = OrcaStatus_value SUCCESS
   \<and> ORCA_STATUS_PENDING = OrcaStatus_value PENDING"
  by (simp add: ORCA_STATUS_FAILED_def ORCA_STATUS_PENDING_def)

text \<open>
  C10. A task input with a glacier bucket and a job id whose list of granules is empty
  passes the single-granule check; \<^verbatim>\<open>inner_task\<close> goes on with the placeholder \<^verbatim>\<open>{}\<close>
  and fails with \<^verbatim>\<open>KeyError('granuleId')\<close> in \<^verbatim>\<open>process_granule\<close>. Only the clock has
  been read by then: the trace is as before, so no restore call has been made and no
  queue message sent.
\<close>

theorem empty_granules_key_error:
  assumes "config_glacier_bucket ev = Some bucket"
    and "input_granules ev = []"
    and "input_job_id ev = Some jid"
  shows "inner_task E ev mr secs tier days url w =
           (Inl (KeyError ''granuleId''), w\<lparr>clock := Suc (clock w)\<rparr>)"
  using assms by (simp add: inner_task_def process_granule_def now_def empty_granule_def)

theorem empty_granules_key_error_witness:
  "config_glacier_bucket empty_event = Some ''glacier'' \<and> input_granules empty_event = []
   \<and> input_job_id empty_event = Some ''j1''
   \<and> inner_task env_queue_up empty_event 2 0 ''Standard'' 5 ''url'' w_init =
       (Inl (KeyError ''granuleId''), \<lparr>trace = [], clock = 1, sqs_calls = 0\<rparr>)"
  using empty_granules_key_error [of empty_event "''glacier''" "''j1''" env_queue_up 2 0
      "''Standard''" 5 "''url''" w_init]
  by (simp add: empty_event_def w_init_def)

text \<open>
  C3. For a granule with an id and a list of files, \<^verbatim>\<open>process_granule\<close> raises
  \<^verbatim>\<open>RestoreRequestError\<close> exactly when some file's \<^verbatim>\<open>success\<close> is false after the retry
  loop, and returns normally exactly when every file's is true. The granule is mutated
  in both cases (only its \<^verbatim>\<open>recover_files\<close> change), and the error message interpolates
  that mutated granule, so it carries every file's result and error message.
\<close>

theorem process_granule_raises_iff_file_failed:
  assumes "granuleId g = Some gid"
    and "recover_files g = Some files"
    and "process_granule E g A w = (res, g', w')"
  shows "\<exists>files'. g' = g\<lparr>recover_files := Some files'\<rparr> \<and> length files' = length files
           \<and> (res = Inl (RestoreRequestError
                  [Text ''One or more files failed to be requested. '', Interp_granule g']))
               = (\<exists>f\<in>set files'. \<not> success f)
           \<and> (res = Inr ()) = (\<forall>f\<in>set files'. success f)"
proof -
  from process_granule_summary [OF assms(1,2), of E A w] obtain files' w2 es where
    s: "process_granule E g A w =
        (if \<exists>f\<in>set files'. \<not> success f
         then Inl (RestoreRequestError [Text ''One or more files failed to be requested. '',
                     Interp_granule (g\<lparr>recover_files := Some files'\<rparr>)])
         else Inr (),
         g\<lparr>recover_files := Some files'\<rparr>, w2)"
       "list_all2 evolves files files'"
    by blast
  from s(2) have len: "length files' = length files"
    by (simp add: list_all2_lengthD)
  from s(1) assms(3) len show ?thesis
    by (intro exI [of _ files']) (auto split: if_splits)
qed

theorem process_granule_raises_iff_file_failed_witness:
  "granuleId (example_granule [''a.nc'', ''denied.nc'']) = Some ''G1''
   \<and> recover_files (example_granule [''a.nc'', ''denied.nc''])
       = Some [example_file ''a.nc'', example_file ''denied.nc'']
   \<and> (\<exists>files' g' w'. process_granule env_queue_up (example_granule [''a.nc'', ''denied.nc''])
           example_args w_init =
         (Inl (RestoreRequestError
            [Text ''One or more files failed to be requested. '', Interp_granule g']), g', w')
       \<and> g' = (example_granule [''a.nc'', ''denied.nc''])\<lparr>recover_files := Some files'\<rparr>
       \<and> files' = [\<lparr>key = ''a.nc'', dest_bucket = ''b'', success = True, err_msg = ''''\<rparr>,
                   \<lparr>key = ''denied.nc'', dest_bucket = ''b'', success = False,
                    err_msg = ''AccessDenied''\<rparr>])"
proof -
  let ?g = "example_granule [''a.nc'', ''denied.nc'']"
  obtain res g' w' where run: "process_granule env_queue_up ?g example_args w_init = (res, g', w')"
    by (cases "process_granule env_queue_up ?g example_args w_init")
  have gid: "granuleId ?g = Some ''G1''"
    and fs: "recover_files ?g = Some [example_file ''a.nc'', example_file ''denied.nc'']"
    by (simp_all add: example_granule_def)
  have g': "fst (snd (process_granule env_queue_up ?g example_args w_init)) =
      ?g\<lparr>recover_files := Some [\<lparr>key = ''a.nc'', dest_bucket = ''b'', success = True, err_msg = ''''\<rparr>,
                   \<lparr>key = ''denied.nc'', dest_bucket = ''b'', success = False,
                    err_msg = ''AccessDenied''\<rparr>]\<rparr>"
    by (simp add: run_defs example_defs)
  from process_granule_raises_iff_file_failed [OF gid fs run] obtain files' where
    h: "g' = ?g\<lparr>recover_files := Some files'\<rparr>"
       "(res = Inl (RestoreRequestError
                  [Text ''One or more files failed to be requested. '', Interp_granule g']))
               = (\<exists>f\<in>set files'. \<not> success f)"
    by blast
  from g' run h(1) have files': "files' = [\<lparr>key = ''a.nc'', dest_bucket = ''b'', success = True, err_msg = ''''\<rparr>,
                   \<lparr>key = ''denied.nc'', dest_bucket = ''b'', success = False,
                    err_msg = ''AccessDenied''\<rparr>]"
    by (simp add: example_granule_def)
  with h(2) have "res = Inl (RestoreRequestError
                  [Text ''One or more files failed to be requested. '', Interp_granule g'])"
    by simp
  with run h(1) files' gid fs show ?thesis by simp
qed

text \<open>
  C5. Early exit. \<open>retry_loop\<close> at attempt \<open>k\<close> is the loop as it stands at the start of
  pass \<open>k\<close>. If pass \<open>k\<close> is not the last (\<open>k < max_retries + 1\<close>) and ends with every
  file successful, the loop ends in the world the pass ended in, and the reporting loop
  after it leaves that world as it is: no sleep and no restore call follow pass \<open>k\<close>.
\<close>

theorem early_exit_after_successful_pass:
  assumes "k < max_retries A + 1"
    and "restore_pass E A gid rt k files w = (r, files1, w1)"
    and "list_all success files1"
  shows "retry_loop E A gid rt k files w = (Inr (), files1, w1)
         \<and> report_failures E A gid rt files1 False w1 = (Inr False, w1)"
proof -
  from restore_pass_summary [of E A gid rt k files w] assms(2) have "r = Inr ()"
    by auto
  with assms have "retry_loop E A gid rt k files w = (Inr (), files1, w1)"
    by (subst retry_loop.simps) simp
  with report_failures_all_success [OF assms(3)] show ?thesis by simp
qed

theorem early_exit_after_successful_pass_witness:
  "1 < max_retries example_args + 1
   \<and> (\<exists>files1 w1.
         restore_pass env_queue_up example_args ''G1'' ''t'' 1 [example_file ''a.nc''] w_init
           = (Inr (), files1, w1)
       \<and> list_all success files1
       \<and> retry_loop env_queue_up example_args ''G1'' ''t'' 1 [example_file ''a.nc''] w_init
           = (Inr (), files1, w1)
       \<and> report_failures env_queue_up example_args ''G1'' ''t'' files1 False w1
           = (Inr False, w1))"
proof -
  let ?p = "restore_pass env_queue_up example_args ''G1'' ''t'' 1 [example_file ''a.nc''] w_init"
  obtain r files1 w1 where run: "?p = (r, files1, w1)"
    by (cases ?p)
  have "fst ?p = Inr ()"
    and "fst (snd ?p) = [\<lparr>key = ''a.nc'', dest_bucket = ''b'', success = True, err_msg = ''''\<rparr>]"
    by (simp_all add: run_defs example_defs)
  with run have r: "r = Inr ()" and ok: "list_all success files1"
    by simp_all
  have k: "1 < max_retries example_args + 1"
    by (simp add: example_args_def)
  from early_exit_after_successful_pass [OF k run ok] run r ok k show ?thesis
    by simp
qed

text \<open>
  C9. The files that \<^verbatim>\<open>inner_task\<close> hands over all have \<^verbatim>\<open>success\<close> false. From any
  state of the retry loop on (any attempt number, any list of files), to its end: a file
  whose \<^verbatim>\<open>success\<close> is true is left exactly as it is; a file whose \<^verbatim>\<open>success\<close> goes from
  false to true has the empty \<^verbatim>\<open>err_msg\<close>; and every restore call made is for the key of a
  file whose \<^verbatim>\<open>success\<close> was false, so that, the keys being distinct, no restore call is
  made for a file that has succeeded.
\<close>

theorem success_is_never_reset:
  assumes "keys_loop E bucket ks [] v = (Inr fs0, v')"
    and "retry_loop E A gid rt a files w = (res, files', w')"
  shows "(\<forall>f\<in>set fs0. \<not> success f)
       \<and> length files' = length files
       \<and> (\<forall>i<length files. success (files ! i) \<longrightarrow> files' ! i = files ! i)
       \<and> (\<forall>i<length files. \<not> success (files ! i) \<and> success (files' ! i)
             \<longrightarrow> err_msg (files' ! i) = '''')
       \<and> (\<exists>es. trace w' = trace w @ es
             \<and> set (restored_keys es) \<subseteq> key ` {f \<in> set files. \<not> success f}
             \<and> (distinct (map key files) \<longrightarrow>
                   (\<forall>i<length files. success (files ! i)
                      \<longrightarrow> key (files ! i) \<notin> set (restored_keys es))))"
proof -
  from keys_loop_summary [OF assms(1)] have start: "\<forall>f\<in>set fs0. \<not> success f"
    by (auto simp: new_file_def)
  from retry_loop_summary [of E A gid rt a files w] assms(2) obtain es where
    s: "list_all2 evolves files files'" "trace w' = trace w @ es"
       "set (restored_keys es) \<subseteq> key ` {f \<in> set files. \<not> success f}"
    by auto
  have d: "distinct (map key files) \<longrightarrow>
            (\<forall>i<length files. success (files ! i) \<longrightarrow> key (files ! i) \<notin> set (restored_keys es))"
    using s(3) distinct_keys_successful_not_restored [of files] by blast
  from list_all2_evolves_nth [OF s(1)] start s(2,3) d show ?thesis
    by blast
qed

theorem success_is_never_reset_witness:
  "(\<exists>fs0 v'. keys_loop env_queue_up ''glacier''
        [\<lparr>fk_key = ''a.nc'', fk_dest_bucket = ''b''\<rparr>,
         \<lparr>fk_key = ''missing.nc'', fk_dest_bucket = ''b''\<rparr>] [] w_init = (Inr fs0, v')
      \<and> list_all (\<lambda>f. \<not> success f) fs0)
   \<and> (\<exists>res files' w' es.
        retry_loop env_queue_up example_args ''G1'' ''t'' 2
          [\<lparr>key = ''a.nc'', dest_bucket = ''b'', success = True, err_msg = ''''\<rparr>,
           \<lparr>key = ''slow.nc'', dest_bucket = ''b'', success = False, err_msg = ''SlowDown''\<rparr>]
          w_init = (res, files', w')
      \<and> files' = [\<lparr>key = ''a.nc'', dest_bucket = ''b'', success = True, err_msg = ''''\<rparr>,
                  \<lparr>key = ''slow.nc'', dest_bucket = ''b'', success = True, err_msg = ''''\<rparr>]
      \<and> trace w' = trace w_init @ es
      \<and> ''a.nc'' \<notin> set (restored_keys es))"
proof -
  let ?ks = "[\<lparr>fk_key = ''a.nc'', fk_dest_bucket = ''b''\<rparr>,
              \<lparr>fk_key = ''missing.nc'', fk_dest_bucket = ''b''\<rparr>]"
  let ?files = "[\<lparr>key = ''a.nc'', dest_bucket = ''b'', success = True, err_msg = ''''\<rparr>,
           \<lparr>key = ''slow.nc'', dest_bucket = ''b'', success = False, err_msg = ''SlowDown''\<rparr>]"
  let ?l = "retry_loop env_queue_up example_args ''G1'' ''t'' 2 ?files w_init"
  have k: "keys_loop env_queue_up ''glacier'' ?ks [] w_init =
      (Inr [\<lparr>key = ''a.nc'', dest_bucket = ''b'', success = False, err_msg = ''''\<rparr>],
       snd (keys_loop env_queue_up ''glacier'' ?ks [] w_init))"
    by (simp add: object_exists_def env_queue_up_def example_head_def Let_def)
  obtain res files' w' where run: "?l = (res, files', w')"
    by (cases ?l)
  have "fst (snd ?l) =
      [\<lparr>key = ''a.nc'', dest_bucket = ''b'', success = True, err_msg = ''''\<rparr>,
       \<lparr>key = ''slow.nc'', dest_bucket = ''b'', success = True, err_msg = ''''\<rparr>]"
    by (simp add: run_defs example_defs)
  with run have files': "files' =
      [\<lparr>key = ''a.nc'', dest_bucket = ''b'', success = True, err_msg = ''''\<rparr>,
       \<lparr>key = ''slow.nc'', dest_bucket = ''b'', success = True, err_msg = ''''\<rparr>]"
    by simp
  from success_is_never_reset [OF k run] obtain es where
    es: "trace w' = trace w_init @ es"
        "distinct (map key ?files) \<longrightarrow>
           (\<forall>i<length ?files. success (?files ! i) \<longrightarrow> key (?files ! i) \<notin> set (restored_keys es))"
    and start: "\<forall>f\<in>set [\<lparr>key = ''a.nc'', dest_bucket = ''b'', success = False, err_msg = ''''\<rparr>].
                  \<not> success f"
    by blast
  from es(2) have "''a.nc'' \<notin> set (restored_keys es)"
    by force
  from start have start': "list_all (\<lambda>f. \<not> success f)
      [\<lparr>key = ''a.nc'', dest_bucket = ''b'', success = False, err_msg = ''''\<rparr>]"
    by simp
  with k run files' es(1) \<open>''a.nc'' \<notin> set (restored_keys es)\<close> show ?thesis
    by blast
qed

text \<open>
  C8. In a run of \<^verbatim>\<open>inner_task\<close> with a glacier bucket configured: a key for which the
  probe \<^verbatim>\<open>head_object\<close> answers \<^verbatim>\<open>NoSuchKey\<close> or \<^verbatim>\<open>NotFound\<close> is the key of no restore
  call and of no entry of \<^verbatim>\<open>recover_files\<close> in the granule that the caller gets (in the
  output, or in the message of the \<^verbatim>\<open>RestoreRequestError\<close>). If the probe of some key of
  the granule fails with another error code, \<^verbatim>\<open>inner_task\<close> raises that
  \<^verbatim>\<open>ClientError\<close>, and all it has done by then are \<^verbatim>\<open>head_object\<close> calls: no restore
  call has been made.
\<close>

theorem absent_files_are_excluded:
  assumes "config_glacier_bucket ev = Some bucket"
    and "inner_task E ev mr secs tier days url w = (res, w')"
  shows "\<exists>es. trace w' = trace w @ es
       \<and> (\<forall>k code msg. head_object E bucket k = Some (code, msg)
               \<and> (code = ''NoSuchKey'' \<or> code = ''NotFound'')
             \<longrightarrow> k \<notin> set (restored_keys es)
                 \<and> (\<forall>g\<in>set (result_granules res). \<forall>fs. recover_files g = Some fs
                       \<longrightarrow> k \<notin> key ` set fs))
       \<and> (\<forall>g ks. input_granules ev = [g] \<and> keys g = Some ks
             \<and> (\<exists>k\<in>set ks. \<exists>code msg. head_object E bucket (fk_key k) = Some (code, msg)
                   \<and> code \<noteq> ''NoSuchKey'' \<and> code \<noteq> ''NotFound'')
             \<longrightarrow> (\<exists>code msg. res = Inl (ClientError code msg)
                    \<and> code \<noteq> ''NoSuchKey'' \<and> code \<noteq> ''NotFound''
                    \<and> (\<exists>k\<in>set ks. head_object E bucket (fk_key k) = Some (code, msg)))
                 \<and> restored_keys es = []
                 \<and> set es \<subseteq> (\<lambda>k. HeadObject bucket (fk_key k)) ` set ks)"
proof -
  from inner_task_summary [OF assms] obtain es where
    s: "trace w' = trace w @ es"
       "\<forall>k\<in>set (restored_keys es). head_object E bucket k = None"
       "\<forall>g\<in>set (result_granules res). \<forall>fs. recover_files g = Some fs
             \<longrightarrow> (\<forall>f\<in>set fs. head_object E bucket (key f) = None)"
       "\<forall>g ks. input_granules ev = [g] \<and> keys g = Some ks
             \<and> (\<exists>k\<in>set ks. \<exists>code msg. head_object E bucket (fk_key k) = Some (code, msg)
                   \<and> code \<noteq> ''NoSuchKey'' \<and> code \<noteq> ''NotFound'')
             \<longrightarrow> (\<exists>code msg. res = Inl (ClientError code msg)
                    \<and> code \<noteq> ''NoSuchKey'' \<and> code \<noteq> ''NotFound''
                    \<and> (\<exists>k\<in>set ks. head_object E bucket (fk_key k) = Some (code, msg)))
                 \<and> restored_keys es = []
                 \<and> set es \<subseteq> (\<lambda>k. HeadObject bucket (fk_key k)) ` set ks"
    by blast
  have absent: "\<forall>k code msg. head_object E bucket k = Some (code, msg)
               \<and> (code = ''NoSuchKey'' \<or> code = ''NotFound'')
             \<longrightarrow> k \<notin> set (restored_keys es)
                 \<and> (\<forall>g\<in>set (result_granules res). \<forall>fs. recover_files g = Some fs
                       \<longrightarrow> k \<notin> key ` set fs)"
  proof (intro allI impI conjI ballI)
    fix k code msg
    assume h: "head_object E bucket k = Some (code, msg)
               \<and> (code = ''NoSuchKey'' \<or> code = ''NotFound'')"
    show "k \<notin> set (restored_keys es)"
      using s(2) h by force
    fix g fs
    assume "g \<in> set (result_granules res)" "recover_files g = Some fs"
    with s(3) have "\<forall>f\<in>set fs. head_object E bucket (key f) = None"
      by blast
    with h show "k \<notin> key ` set fs"
      by force
  qed
  from s(1) absent s(4) show ?thesis
    by (intro exI [of _ es] conjI)
qed

theorem absent_files_are_excluded_witness:
  "(\<exists>res w' es.
      config_glacier_bucket (example_event [''a.nc'', ''missing.nc'']) = Some ''glacier''
    \<and> inner_task env_queue_up (example_event [''a.nc'', ''missing.nc'']) 2 0 ''Standard'' 5
         ''url'' w_init = (res, w')
    \<and> head_object env_queue_up ''glacier'' ''missing.nc'' = Some (''NotFound'', ''Not Found'')
    \<and> trace w' = trace w_init @ es
    \<and> ''missing.nc'' \<notin> set (restored_keys es)
    \<and> ''missing.nc'' \<notin> set (result_keys res))
   \<and> (\<exists>code msg w' es.
      inner_task env_queue_up (example_event [''a.nc'', ''locked.nc'']) 2 0 ''Standard'' 5
         ''url'' w_init = (Inl (ClientError code msg), w')
    \<and> code \<noteq> ''NoSuchKey'' \<and> code \<noteq> ''NotFound''
    \<and> trace w' = trace w_init @ es
    \<and> restored_keys es = [])"
proof -
  let ?e1 = "example_event [''a.nc'', ''missing.nc'']"
  let ?e2 = "example_event [''a.nc'', ''locked.nc'']"
  let ?r1 = "inner_task env_queue_up ?e1 2 0 ''Standard'' 5 ''url'' w_init"
  let ?r2 = "inner_task env_queue_up ?e2 2 0 ''Standard'' 5 ''url'' w_init"
  let ?ks2 = "[\<lparr>fk_key = ''a.nc'', fk_dest_bucket = ''b''\<rparr>,
               \<lparr>fk_key = ''locked.nc'', fk_dest_bucket = ''b''\<rparr>]"
  let ?g2 = "\<lparr>granuleId = Some ''G1'', keys = Some ?ks2, recover_files = None\<rparr>"
  have cfg1: "config_glacier_bucket ?e1 = Some ''glacier''"
    and cfg2: "config_glacier_bucket ?e2 = Some ''glacier''"
    by (simp_all add: example_event_def)
  have hd: "head_object env_queue_up ''glacier'' ''missing.nc'' = Some (''NotFound'', ''Not Found'')"
    by (simp add: env_queue_up_def example_head_def)
  obtain res1 w1 where run1: "?r1 = (res1, w1)" by (cases ?r1)
  obtain res2 w2 where run2: "?r2 = (res2, w2)" by (cases ?r2)
  from absent_files_are_excluded [OF cfg1 run1] obtain es1 where
    c1: "trace w1 = trace w_init @ es1
       \<and> (\<forall>k code msg. head_object env_queue_up ''glacier'' k = Some (code, msg)
               \<and> (code = ''NoSuchKey'' \<or> code = ''NotFound'')
             \<longrightarrow> k \<notin> set (restored_keys es1)
                 \<and> (\<forall>g\<in>set (result_granules res1). \<forall>fs. recover_files g = Some fs
                       \<longrightarrow> k \<notin> key ` set fs))
       \<and> (\<forall>g ks. input_granules ?e1 = [g] \<and> keys g = Some ks
             \<and> (\<exists>k\<in>set ks. \<exists>code msg. head_object env_queue_up ''glacier'' (fk_key k) = Some (code, msg)
                   \<and> code \<noteq> ''NoSuchKey'' \<and> code \<noteq> ''NotFound'')
             \<longrightarrow> (\<exists>code msg. res1 = Inl (ClientError code msg)
                    \<and> code \<noteq> ''NoSuchKey'' \<and> code \<noteq> ''NotFound''
                    \<and> (\<exists>k\<in>set ks. head_object env_queue_up ''glacier'' (fk_key k) = Some (code, msg)))
                 \<and> restored_keys es1 = []
                 \<and> set es1 \<subseteq> (\<lambda>k. HeadObject ''glacier'' (fk_key k)) ` set ks)"
    by (rule exE)
  from c1 have t1: "trace w1 = trace w_init @ es1"
    by (rule conjunct1)
  from c1 have a1: "\<forall>k code msg. head_object env_queue_up ''glacier'' k = Some (code, msg)
               \<and> (code = ''NoSuchKey'' \<or> code = ''NotFound'')
             \<longrightarrow> k \<notin> set (restored_keys es1)
                 \<and> (\<forall>g\<in>set (result_granules res1). \<forall>fs. recover_files g = Some fs
                       \<longrightarrow> k \<notin> key ` set fs)"
    by (rule conjunct2 [THEN conjunct1])
  from a1 [rule_format, of "''missing.nc''" "''NotFound''" "''Not Found''"] hd
  have m1: "''missing.nc'' \<notin> set (restored_keys es1)
      \<and> (\<forall>g\<in>set (result_granules res1). \<forall>fs. recover_files g = Some fs
            \<longrightarrow> ''missing.nc'' \<notin> key ` set fs)"
    by simp
  from m1 have rk1: "''missing.nc'' \<notin> set (result_keys res1)"
    by (auto simp: result_keys_def split: option.splits)
  have part1: "\<exists>res w' es.
      config_glacier_bucket ?e1 = Some ''glacier''
    \<and> ?r1 = (res, w')
    \<and> head_object env_queue_up ''glacier'' ''missing.nc'' = Some (''NotFound'', ''Not Found'')
    \<and> trace w' = trace w_init @ es
    \<and> ''missing.nc'' \<notin> set (restored_keys es)
    \<and> ''missing.nc'' \<notin> set (result_keys res)"
    using cfg1 run1 hd t1 m1 rk1
    by (intro exI [of _ res1] exI [of _ w1] exI [of _ es1]) simp
  from absent_files_are_excluded [OF cfg2 run2] obtain es2 where
    c2: "trace w2 = trace w_init @ es2
       \<and> (\<forall>k code msg. head_object env_queue_up ''glacier'' k = Some (code, msg)
               \<and> (code = ''NoSuchKey'' \<or> code = ''NotFound'')
             \<longrightarrow> k \<notin> set (restored_keys es2)
                 \<and> (\<forall>g\<in>set (result_granules res2). \<forall>fs. recover_files g = Some fs
                       \<longrightarrow> k \<notin> key ` set fs))
       \<and> (\<forall>g ks. input_granules ?e2 = [g] \<and> keys g = Some ks
             \<and> (\<exists>k\<in>set ks. \<exists>code msg. head_object env_queue_up ''glacier'' (fk_key k) = Some (code, msg)
                   \<and> code \<noteq> ''NoSuchKey'' \<and> code \<noteq> ''NotFound'')
             \<longrightarrow> (\<exists>code msg. res2 = Inl (ClientError code msg)
                    \<and> code \<noteq> ''NoSuchKey'' \<and> code \<noteq> ''NotFound''
                    \<and> (\<exists>k\<in>set ks. head_object env_queue_up ''glacier'' (fk_key k) = Some (code, msg)))
                 \<and> restored_keys es2 = []
                 \<and> set es2 \<subseteq> (\<lambda>k. HeadObject ''glacier'' (fk_key k)) ` set ks)"
    by (rule exE)
  from c2 have t2: "trace w2 = trace w_init @ es2"
    by (rule conjunct1)
  from c2 have b2: "\<forall>g ks. input_granules ?e2 = [g] \<and> keys g = Some ks
             \<and> (\<exists>k\<in>set ks. \<exists>code msg. head_object env_queue_up ''glacier'' (fk_key k) = Some (code, msg)
                   \<and> code \<noteq> ''NoSuchKey'' \<and> code \<noteq> ''NotFound'')
             \<longrightarrow> (\<exists>code msg. res2 = Inl (ClientError code msg)
                    \<and> code \<noteq> ''NoSuchKey'' \<and> code \<noteq> ''NotFound''
                    \<and> (\<exists>k\<in>set ks. head_object env_queue_up ''glacier'' (fk_key k) = Some (code, msg)))
                 \<and> restored_keys es2 = []
                 \<and> set es2 \<subseteq> (\<lambda>k. HeadObject ''glacier'' (fk_key k)) ` set ks"
    by (rule conjunct2 [THEN conjunct2])
  have in2: "input_granules ?e2 = [?g2] \<and> keys ?g2 = Some ?ks2"
    by (simp add: example_event_def)
  have locked: "\<exists>k\<in>set ?ks2. \<exists>code msg.
      head_object env_queue_up ''glacier'' (fk_key k) = Some (code, msg)
         \<and> code \<noteq> ''NoSuchKey'' \<and> code \<noteq> ''NotFound''"
    by (simp add: env_queue_up_def example_head_def)
  have pre: "input_granules ?e2 = [?g2] \<and> keys ?g2 = Some ?ks2
      \<and> (\<exists>k\<in>set ?ks2. \<exists>code msg.
            head_object env_queue_up ''glacier'' (fk_key k) = Some (code, msg)
            \<and> code \<noteq> ''NoSuchKey'' \<and> code \<noteq> ''NotFound'')"
    by (rule conjI [OF conjunct1 [OF in2] conjI [OF conjunct2 [OF in2] locked]])
  have q: "(\<exists>code msg. res2 = Inl (ClientError code msg)
                    \<and> code \<noteq> ''NoSuchKey'' \<and> code \<noteq> ''NotFound''
                    \<and> (\<exists>k\<in>set ?ks2. head_object env_queue_up ''glacier'' (fk_key k) = Some (code, msg)))
                 \<and> restored_keys es2 = []
                 \<and> set es2 \<subseteq> (\<lambda>k. HeadObject ''glacier'' (fk_key k)) ` set ?ks2"
    by (rule b2 [rule_format, OF pre])
  from q obtain code msg where r2: "res2 = Inl (ClientError code msg)"
    "code \<noteq> ''NoSuchKey''" "code \<noteq> ''NotFound''" and rk2: "restored_keys es2 = []"
    by (elim conjE exE)
  have part2: "\<exists>code msg w' es.
      ?r2 = (Inl (ClientError code msg), w')
    \<and> code \<noteq> ''NoSuchKey'' \<and> code \<noteq> ''NotFound''
    \<and> trace w' = trace w_init @ es
    \<and> restored_keys es = []"
    using run2 r2 rk2 t2
    by (intro exI [of _ code] exI [of _ msg] exI [of _ w2] exI [of _ es2]) simp
  from part1 part2 show ?thesis
    by (rule conjI)
qed

text \<open>
  C2 (the code departs from the claim). The claim: a file whose restore fails in every
  pass gets exactly one \<^verbatim>\<open>FAILED\<close> event, which carries \<^verbatim>\<open>completion_time\<close> and a
  non-empty \<^verbatim>\<open>error_message\<close>. The code: for the granule with the one file
  \<^verbatim>\<open>denied.nc\<close>, whose restore is refused in each of the three passes, one file event is
  handed to the publisher, with status 4 and the error message of the last refusal, and
  it has no \<^verbatim>\<open>completion_time\<close>: \<^verbatim>\<open>process_granule\<close> passes \<^verbatim>\<open>None\<close> for it.
\<close>

theorem failed_event_lacks_completion_time:
  "file_events (trace (snd (snd (process_granule env_queue_up (example_granule [''denied.nc''])
       example_args w_init)))) =
     [[(''job_id'', JStr ''j1''), (''granule_id'', JStr ''G1''), (''filename'', JStr ''denied.nc''),
       (''key_path'', JStr ''denied.nc''), (''restore_destination'', JStr ''b''),
       (''status_id'', JInt 4), (''error_message'', JStr ''AccessDenied''),
       (''request_time'', JStr ''2021-01-01T00:00:00+00:00''),
       (''last_update'', JStr ''2021-01-01T00:00:00+00:00'')]]
   \<and> map_of (hd (file_events (trace (snd (snd (process_granule env_queue_up
         (example_granule [''denied.nc'']) example_args w_init)))))) ''completion_time'' = None"
  by (simp add: run_defs example_defs ORCA_STATUS_FAILED_def basename_def)

text \<open>
  C6. In both modules the deduplication key of a message that carries a body is the
  table name, the value of the request method and the serialised body, concatenated:
  every message that \<^verbatim>\<open>post_entry_to_queue\<close> of request\_files.py sends either has no
  body and no key (the first \<^verbatim>\<open>send_message\<close> of each attempt) or has the body
  \<^verbatim>\<open>json.dumps(new_data, indent=4)\<close> and that key; the one message of shared\_recovery.py
  has that key over its own serialiser. Hence two publications of the same payload attach
  the same key, and, the serialiser being injective (it is a parameter here), two
  publications of different payloads attach different keys.
\<close>

theorem deduplication_key_is_concatenation:
  assumes "post_entry_to_queue E t d rm url mr secs w = (r, w')"
    and "post_entry_to_queue E t d' rm url mr secs v = (r', v')"
    and "sr_post_entry_to_queue E json_dumps t d srm url u = (r'', u')"
  shows "\<exists>es es' m ok.
       trace w' = trace w @ es \<and> trace v' = trace v @ es'
     \<and> trace u' = trace u @ [SendMessage m ok]
     \<and> (\<forall>m ok. SendMessage m ok \<in> set es \<longrightarrow>
           (case MessageBody m of
              None \<Rightarrow> MessageDeduplicationId m = None
            | Some b \<Rightarrow> b = json_dumps_indent4 E d
                \<and> MessageDeduplicationId m = Some (t @ RequestMethod_value rm @ b)))
     \<and> MessageBody m = Some (json_dumps d)
     \<and> MessageDeduplicationId m = Some (t @ sr_RequestMethod_value srm @ json_dumps d)
     \<and> (\<forall>i\<in>set (dedup_ids es). \<forall>j\<in>set (dedup_ids es').
           (d' = d \<longrightarrow> i = j)
         \<and> (inj (json_dumps_indent4 E) \<and> d' \<noteq> d \<longrightarrow> i \<noteq> j))"
proof -
  from post_entry_dedup [OF assms(1)] obtain es where
    a: "trace w' = trace w @ es"
       "set (dedup_ids es) \<subseteq> {t @ RequestMethod_value rm @ json_dumps_indent4 E d}"
       "\<forall>m ok. SendMessage m ok \<in> set es \<longrightarrow>
           (case MessageBody m of
              None \<Rightarrow> MessageDeduplicationId m = None
            | Some b \<Rightarrow> b = json_dumps_indent4 E d
                \<and> MessageDeduplicationId m = Some (t @ RequestMethod_value rm @ b))"
    by blast
  from post_entry_dedup [OF assms(2)] obtain es' where
    b: "trace v' = trace v @ es'"
       "set (dedup_ids es') \<subseteq> {t @ RequestMethod_value rm @ json_dumps_indent4 E d'}"
    by blast
  let ?m = "sr_message t srm url (json_dumps d)"
  let ?ok = "send_message E (sqs_calls u) ?m = None"
  from assms(3) have c: "trace u' = trace u @ [SendMessage ?m ?ok]"
    by (auto simp: sr_post_entry_to_queue_def sqs_send_message_def Let_def split: option.splits)
  have m: "MessageBody ?m = Some (json_dumps d)"
    "MessageDeduplicationId ?m = Some (t @ sr_RequestMethod_value srm @ json_dumps d)"
    by (simp_all add: sr_message_def)
  have ids: "\<forall>i\<in>set (dedup_ids es). \<forall>j\<in>set (dedup_ids es').
           (d' = d \<longrightarrow> i = j)
         \<and> (inj (json_dumps_indent4 E) \<and> d' \<noteq> d \<longrightarrow> i \<noteq> j)"
  proof (intro ballI conjI impI)
    fix i j
    assume ij: "i \<in> set (dedup_ids es)" "j \<in> set (dedup_ids es')"
    with a(2) b(2) have i: "i = t @ RequestMethod_value rm @ json_dumps_indent4 E d"
      and j: "j = t @ RequestMethod_value rm @ json_dumps_indent4 E d'"
      by auto
    show "i = j" if "d' = d"
      using that i j by simp
    show "i \<noteq> j" if "inj (json_dumps_indent4 E) \<and> d' \<noteq> d"
      using that i j by (auto dest: injD)
  qed
  from a(1) b(1) c a(3) m ids show ?thesis
    by (intro exI [of _ es] exI [of _ es'] exI [of _ ?m] exI [of _ ?ok] conjI)
qed

theorem deduplication_key_is_concatenation_witness:
  "inj (json_dumps_indent4 env_queue_up)
   \<and> [(''last_update'', JStr ''t2'')] \<noteq> [(''last_update'', JStr ''t1'')]
   \<and> (\<exists>r w' r' v' r'' u' es es' m ok.
         post_entry_to_queue env_queue_up ''orca_recoverfile'' [(''last_update'', JStr ''t1'')]
           POST ''url'' 2 0 w_init = (r, w')
       \<and> post_entry_to_queue env_queue_up ''orca_recoverfile'' [(''last_update'', JStr ''t2'')]
           POST ''url'' 2 0 w_init = (r', v')
       \<and> sr_post_entry_to_queue env_queue_up example_dumps ''orca_recoverfile''
           [(''last_update'', JStr ''t1'')] UPDATE_FILE ''url'' w_init = (r'', u')
       \<and> trace w' = trace w_init @ es \<and> trace v' = trace w_init @ es'
       \<and> trace u' = trace w_init @ [SendMessage m ok]
       \<and> dedup_ids es =
           [''orca_recoverfile'' @ ''post'' @ example_dumps [(''last_update'', JStr ''t1'')]]
       \<and> dedup_ids es' =
           [''orca_recoverfile'' @ ''post'' @ example_dumps [(''last_update'', JStr ''t2'')]]
       \<and> MessageDeduplicationId m =
           Some (''orca_recoverfile'' @ ''update_file''
                 @ example_dumps [(''last_update'', JStr ''t1'')])
       \<and> set (dedup_ids es) \<inter> set (dedup_ids es') = {})"
proof -
  let ?d = "[(''last_update'', JStr ''t1'')]"
  let ?d' = "[(''last_update'', JStr ''t2'')]"
  let ?p = "post_entry_to_queue env_queue_up ''orca_recoverfile'' ?d POST ''url'' 2 0 w_init"
  let ?p' = "post_entry_to_queue env_queue_up ''orca_recoverfile'' ?d' POST ''url'' 2 0 w_init"
  let ?s = "sr_post_entry_to_queue env_queue_up example_dumps ''orca_recoverfile'' ?d
              UPDATE_FILE ''url'' w_init"
  have inj: "inj (json_dumps_indent4 env_queue_up)"
    using example_dumps_inj by (simp add: env_queue_up_def)
  have ne: "?d' \<noteq> ?d" by simp
  obtain r w' where run: "?p = (r, w')" by (cases ?p)
  obtain r' v' where run': "?p' = (r', v')" by (cases ?p')
  obtain r'' u' where srun: "?s = (r'', u')" by (cases ?s)
  have t0: "trace w_init = []" by (simp add: w_init_def)
  have "dedup_ids (trace (snd ?p)) = [''orca_recoverfile'' @ ''post'' @ example_dumps ?d]"
    and "dedup_ids (trace (snd ?p')) = [''orca_recoverfile'' @ ''post'' @ example_dumps ?d']"
    by (simp_all add: run_defs example_defs full_message_def bare_message_def)
  with run run' have ids: "dedup_ids (trace w') = [''orca_recoverfile'' @ ''post'' @ example_dumps ?d]"
    "dedup_ids (trace v') = [''orca_recoverfile'' @ ''post'' @ example_dumps ?d']"
    by simp_all
  from deduplication_key_is_concatenation [OF run run' srun] obtain es es' m ok where
    c: "trace w' = trace w_init @ es" "trace v' = trace w_init @ es'"
       "trace u' = trace w_init @ [SendMessage m ok]"
       "MessageDeduplicationId m =
          Some (''orca_recoverfile'' @ sr_RequestMethod_value UPDATE_FILE @ example_dumps ?d)"
       "\<forall>i\<in>set (dedup_ids es). \<forall>j\<in>set (dedup_ids es').
           (?d' = ?d \<longrightarrow> i = j)
         \<and> (inj (json_dumps_indent4 env_queue_up) \<and> ?d' \<noteq> ?d \<longrightarrow> i \<noteq> j)"
    by (elim exE conjE)
  from c(1,2) t0 ids have ids': "dedup_ids es = [''orca_recoverfile'' @ ''post'' @ example_dumps ?d]"
    "dedup_ids es' = [''orca_recoverfile'' @ ''post'' @ example_dumps ?d']"
    by simp_all
  from c(5) inj ne have "\<forall>i\<in>set (dedup_ids es). \<forall>j\<in>set (dedup_ids es'). i \<noteq> j"
    by blast
  then have diff: "set (dedup_ids es) \<inter> set (dedup_ids es') = {}"
    by blast
  from c(4) have mid: "MessageDeduplicationId m =
           Some (''orca_recoverfile'' @ ''update_file'' @ example_dumps ?d)"
    by simp
  have "\<exists>r w' r' v' r'' u' es es' m ok.
         ?p = (r, w') \<and> ?p' = (r', v') \<and> ?s = (r'', u')
       \<and> trace w' = trace w_init @ es \<and> trace v' = trace w_init @ es'
       \<and> trace u' = trace w_init @ [SendMessage m ok]
       \<and> dedup_ids es = [''orca_recoverfile'' @ ''post'' @ example_dumps ?d]
       \<and> dedup_ids es' = [''orca_recoverfile'' @ ''post'' @ example_dumps ?d']
       \<and> MessageDeduplicationId m =
           Some (''orca_recoverfile'' @ ''update_file'' @ example_dumps ?d)
       \<and> set (dedup_ids es) \<inter> set (dedup_ids es') = {}"
    using run run' srun c(1,2,3) ids' mid diff
    by (intro exI [of _ r] exI [of _ w'] exI [of _ r'] exI [of _ v'] exI [of _ r''] exI [of _ u']
        exI [of _ es] exI [of _ es'] exI [of _ m] exI [of _ ok] conjI)
  with inj ne show ?thesis
    by (intro conjI)
qed

text \<open>
  C4. A status event is emitted when it is handed to the status publisher, that is, when
  \<^verbatim>\<open>post_entry_to_queue\<close> is called with it; what the publisher then sends is its own
  matter (C1). For a granule with an id whose files all come in with \<^verbatim>\<open>success\<close> false,
  and for each of which S3 accepts the restore request in some pass from 1 to
  \<^verbatim>\<open>max_retries + 1\<close>: \<^verbatim>\<open>process_granule\<close> returns normally with every \<^verbatim>\<open>success\<close> true;
  the first thing it does is to emit the job-level \<^verbatim>\<open>PENDING\<close> event, and it emits no
  other; and the file-level \<^verbatim>\<open>PENDING\<close> events, each taken with the pass it is emitted
  in, are exactly the files, each taken with the first pass in which its restore is
  accepted.
\<close>

theorem every_file_succeeds_one_pending_each:
  assumes "granuleId g = Some gid"
    and "recover_files g = Some files"
    and "\<forall>f\<in>set files. \<not> success f"
    and "\<forall>f\<in>set files. first_ok_from E A 1 (key f) \<noteq> None"
  shows "\<exists>files' w' es.
        process_granule E g A w = (Inr (), g\<lparr>recover_files := Some files'\<rparr>, w')
      \<and> list_all success files'
      \<and> trace w' = trace w @ es
      \<and> is_job_pending (hd es) \<and> length (filter is_job_pending es) = 1
      \<and> mset (map (\<lambda>(k, p). (k, Some p)) (pending_passes 0 es)) =
          mset (map (\<lambda>f. (Some (JStr (key f)), first_ok_from E A 1 (key f))) files)"
proof -
  let ?rt = "utcnow E (clock w)"
  let ?w0 = "w\<lparr>clock := Suc (clock w)\<rparr>"
  let ?d = "job_new_data (job_id A) gid (Some ORCA_STATUS_PENDING) (Some ?rt) None
              (Some (glacier_bucket A))"
  let ?job = "PostEntry ''orca_recoveryjob'' ?d POST"
  from post_entry_summary [of E "''orca_recoveryjob''" ?d POST "db_queue_url A"
      "max_retries A" "retry_sleep_secs A" ?w0]
  obtain w1 ds where
    p: "post_entry_to_queue E ''orca_recoveryjob'' ?d POST (db_queue_url A) (max_retries A)
          (retry_sleep_secs A) ?w0 = (Inr (), w1)"
       "trace w1 = trace ?w0 @ ?job # ds"
       "list_all is_delivery ds"
    by blast
  from assms(4) have inv: "\<forall>f\<in>set files. \<not> success f \<longrightarrow> first_ok_from E A 1 (key f) \<noteq> None"
    by simp
  from retry_loop_success [OF inv, of gid ?rt w1] obtain files' w2 es2 where
    l: "retry_loop E A gid ?rt 1 files w1 = (Inr (), files', w2)"
       "list_all success files'"
       "trace w2 = trace w1 @ es2"
       "filter is_job_pending es2 = []"
       "\<forall>c. mset (map (\<lambda>(k, p). (k, Some p)) (pending_passes c es2)) =
               mset (map (\<lambda>f. (Some (JStr (key f)), first_ok_from E A 1 (key f)))
                      (filter (\<lambda>f. \<not> success f) files))"
    by blast
  have r: "report_failures E A gid ?rt files' False w2 = (Inr False, w2)"
    by (rule report_failures_all_success [OF l(2)])
  let ?es = "?job # ds @ es2"
  have res: "process_granule E g A w = (Inr (), g\<lparr>recover_files := Some files'\<rparr>, w2)"
    using assms(1,2) p(1) l(1) r
    by (simp add: process_granule_def now_def post_status_for_job_to_queue_def Let_def)
  have tr: "trace w2 = trace w @ ?es"
    using p(2) l(3) by simp
  have job: "is_job_pending ?job"
    by (simp add: job_new_data_pending)
  have one: "length (filter is_job_pending ?es) = 1"
    using job job_pending_quiet [OF p(3)] l(4) by simp
  have nfp: "\<not> is_file_pending ''orca_recoveryjob'' ?d"
    by (simp add: is_file_pending_def)
  have "pending_passes 0 ?es = pending_passes 0 (ds @ es2)"
    using nfp by simp
  also have "\<dots> = pending_passes 0 es2"
    by (rule pending_passes_quiet [OF p(3)])
  finally have pp: "pending_passes 0 ?es = pending_passes 0 es2" .
  from assms(3) have all: "filter (\<lambda>f. \<not> success f) files = files"
    by (simp add: filter_id_conv)
  have ms: "mset (map (\<lambda>(k, p). (k, Some p)) (pending_passes 0 ?es)) =
          mset (map (\<lambda>f. (Some (JStr (key f)), first_ok_from E A 1 (key f))) files)"
    using l(5) [rule_format, of 0] by (simp only: pp all)
  from res l(2) tr job one ms show ?thesis
    by (intro exI [of _ files'] exI [of _ w2] exI [of _ ?es]) simp
qed

theorem every_file_succeeds_one_pending_each_witness:
  "granuleId (example_granule [''a.nc'', ''slow.nc'']) = Some ''G1''
   \<and> recover_files (example_granule [''a.nc'', ''slow.nc''])
       = Some [example_file ''a.nc'', example_file ''slow.nc'']
   \<and> \<not> success (example_file ''a.nc'') \<and> \<not> success (example_file ''slow.nc'')
   \<and> first_ok_from env_queue_up example_args 1 ''a.nc'' = Some 1
   \<and> first_ok_from env_queue_up example_args 1 ''slow.nc'' = Some 2
   \<and> (\<exists>files' w' es.
         process_granule env_queue_up (example_granule [''a.nc'', ''slow.nc'']) example_args w_init
           = (Inr (), (example_granule [''a.nc'', ''slow.nc''])\<lparr>recover_files := Some files'\<rparr>, w')
       \<and> list_all success files'
       \<and> trace w' = trace w_init @ es
       \<and> is_job_pending (hd es) \<and> length (filter is_job_pending es) = 1
       \<and> mset (map (\<lambda>(k, p). (k, Some p)) (pending_passes 0 es)) =
           {#(Some (JStr ''a.nc''), Some 1), (Some (JStr ''slow.nc''), Some 2)#})"
proof -
  let ?g = "example_granule [''a.nc'', ''slow.nc'']"
  let ?files = "[example_file ''a.nc'', example_file ''slow.nc'']"
  have gid: "granuleId ?g = Some ''G1''" and fs: "recover_files ?g = Some ?files"
    by (simp_all add: example_granule_def)
  have fr1: "\<not> success (example_file ''a.nc'')" and fr2: "\<not> success (example_file ''slow.nc'')"
    by (simp_all add: example_file_def)
  from fr1 fr2 have fresh: "\<forall>f\<in>set ?files. \<not> success f"
    by simp
  have fa: "first_ok_from env_queue_up example_args 1 ''a.nc'' = Some 1"
    and fb: "first_ok_from env_queue_up example_args 1 ''slow.nc'' = Some 2"
    by (simp_all add: first_ok_from_def attempt_ok_def example_defs upto.simps)
  have ok: "\<forall>f\<in>set ?files. first_ok_from env_queue_up example_args 1 (key f) \<noteq> None"
    using fa fb by (simp add: example_file_def)
  have firsts: "mset (map (\<lambda>f. (Some (JStr (key f)), first_ok_from env_queue_up example_args 1 (key f)))
                  ?files) = {#(Some (JStr ''a.nc''), Some 1), (Some (JStr ''slow.nc''), Some 2)#}"
    using fa fb by (simp add: example_file_def)
  from every_file_succeeds_one_pending_each [OF gid fs fresh ok, of w_init]
  obtain files' w' es where
    c: "process_granule env_queue_up ?g example_args w_init
           = (Inr (), ?g\<lparr>recover_files := Some files'\<rparr>, w')"
       "list_all success files'"
       "trace w' = trace w_init @ es"
       "is_job_pending (hd es)" "length (filter is_job_pending es) = 1"
       "mset (map (\<lambda>(k, p). (k, Some p)) (pending_passes 0 es)) =
          mset (map (\<lambda>f. (Some (JStr (key f)), first_ok_from env_queue_up example_args 1 (key f)))
                  ?files)"
    by (elim exE conjE)
  from c(6) firsts have ms: "mset (map (\<lambda>(k, p). (k, Some p)) (pending_passes 0 es)) =
           {#(Some (JStr ''a.nc''), Some 1), (Some (JStr ''slow.nc''), Some 2)#}"
    by (rule trans)
  have run: "\<exists>files' w' es.
         process_granule env_queue_up ?g example_args w_init
           = (Inr (), ?g\<lparr>recover_files := Some files'\<rparr>, w')
       \<and> list_all success files'
       \<and> trace w' = trace w_init @ es
       \<and> is_job_pending (hd es) \<and> length (filter is_job_pending es) = 1
       \<and> mset (map (\<lambda>(k, p). (k, Some p)) (pending_passes 0 es)) =
           {#(Some (JStr ''a.nc''), Some 1), (Some (JStr ''slow.nc''), Some 2)#}"
    using c(1-5) ms
    by (intro exI [of _ files'] exI [of _ w'] exI [of _ es] conjI)
  from gid fs fr1 fr2 fa fb run show ?thesis
    by (intro conjI)
qed

end
